theory Spec2Isabelle
  imports Main "HOL-Library.Sublist" "HOL-Library.AList"
begin

section \<open>Text and numbers as Python prints them\<close>

text \<open>
  \<open>str(n)\<close> for an integer is its decimal spelling, with a leading minus sign for a
  negative number. Width-padded fields (\<open>%m\<close>, \<open>%d\<close>, \<open>%Y\<close>) put zeros in front, the
  \<open>%4d\<close> of the cftime library puts blanks.
\<close>

definition digit_char :: "nat \<Rightarrow> char" where
  "digit_char n = ''0123456789'' ! (n mod 10)"

fun str_nat :: "nat \<Rightarrow> string" where
  "str_nat n = (if n < 10 then [digit_char n] else str_nat (n div 10) @ [digit_char n])"

declare str_nat.simps [simp del]

definition str_int :: "int \<Rightarrow> string" where
  "str_int i = (if i < 0 then CHR ''-'' # str_nat (nat (- i)) else str_nat (nat i))"

definition pad_left :: "char \<Rightarrow> nat \<Rightarrow> string \<Rightarrow> string" where
  "pad_left c w s = replicate (w - length s) c @ s"

definition is_digit :: "char \<Rightarrow> bool" where
  "is_digit c = (c \<in> set ''0123456789'')"

definition digit_val :: "char \<Rightarrow> nat" where
  "digit_val c = of_char c - 48"

definition nat_of_digits :: "string \<Rightarrow> nat" where
  "nat_of_digits s = foldl (\<lambda>a c. 10 * a + digit_val c) 0 s"

section \<open>Calendar\<close>

text \<open>
  A \<open>pandas.Timestamp\<close> or a \<open>numpy.datetime64[ns]\<close> is a count of nanoseconds since
  1970-01-01T00:00; a \<open>datetime.date\<close> is a year, a month and a day of the proleptic
  Gregorian calendar. The two are related by the day number of a civil date.
\<close>

type_synonym timestamp = int

record ymd =
  year :: int
  month :: int
  day :: int

definition ns_per_day :: int where
  "ns_per_day = 86400 * 1000000000"

definition is_leap :: "int \<Rightarrow> bool" where
  "is_leap y = (y mod 4 = 0 \<and> (y mod 100 \<noteq> 0 \<or> y mod 400 = 0))"

definition days_in_month :: "int \<Rightarrow> int \<Rightarrow> int" where
  "days_in_month y m =
     (if m = 2 then (if is_leap y then 29 else 28)
      else if m = 4 \<or> m = 6 \<or> m = 9 \<or> m = 11 then 30 else 31)"

definition valid_date :: "ymd \<Rightarrow> bool" where
  "valid_date c = (1 \<le> month c \<and> month c \<le> 12 \<and> 1 \<le> day c \<and> day c \<le> days_in_month (year c) (month c))"

definition days_from_civil :: "ymd \<Rightarrow> int" where
  "days_from_civil c =
     (let y = (if month c \<le> 2 then year c - 1 else year c);
          era = y div 400;
          yoe = y - era * 400;
          mp = (if month c > 2 then month c - 3 else month c + 9);
          doy = (153 * mp + 2) div 5 + day c - 1;
          doe = yoe * 365 + yoe div 4 - yoe div 100 + doy
      in era * 146097 + doe - 719468)"

definition civil_from_days :: "int \<Rightarrow> ymd" where
  "civil_from_days z =
     (let z' = z + 719468;
          era = z' div 146097;
          doe = z' - era * 146097;
          yoe = (doe - doe div 1460 + doe div 36524 - doe div 146096) div 365;
          doy = doe - (365 * yoe + yoe div 4 - yoe div 100);
          mp = (5 * doy + 2) div 153;
          d = doy - (153 * mp + 2) div 5 + 1;
          m = (if mp < 10 then mp + 3 else mp - 9)
      in \<lparr>year = (if m \<le> 2 then yoe + era * 400 + 1 else yoe + era * 400), month = m, day = d\<rparr>)"

definition date_of :: "timestamp \<Rightarrow> ymd" where
  "date_of t = civil_from_days (t div ns_per_day)"

definition midnight :: "ymd \<Rightarrow> timestamp" where
  "midnight c = days_from_civil c * ns_per_day"

subsection \<open>strftime\<close>

text \<open>
  The module formats dates with the directives \<open>%Y\<close>, \<open>%m\<close> and \<open>%d\<close> only; these are
  the ones interpreted here, every other character of the format is copied. The year is
  printed by the function given: \<open>datetime\<close> and \<open>Timestamp\<close> print four digits
  (\<open>0001\<close> ... \<open>9999\<close>), cftime prints with \<open>%4d\<close>.
\<close>

definition directive :: "(int \<Rightarrow> string) \<Rightarrow> char \<Rightarrow> ymd \<Rightarrow> string" where
  "directive fmt_year d c =
     (if d = CHR ''Y'' then fmt_year (year c)
      else if d = CHR ''m'' then pad_left CHR ''0'' 2 (str_int (month c))
      else if d = CHR ''d'' then pad_left CHR ''0'' 2 (str_int (day c))
      else [CHR ''%'', d])"

fun strftime_fields :: "(int \<Rightarrow> string) \<Rightarrow> string \<Rightarrow> ymd \<Rightarrow> string" where
  "strftime_fields fy [] c = []"
| "strftime_fields fy [x] c = [x]"
| "strftime_fields fy (x # d # xs) c =
     (if x = CHR ''%'' then directive fy d c @ strftime_fields fy xs c
      else x # strftime_fields fy (d # xs) c)"

definition strftime :: "timestamp \<Rightarrow> string \<Rightarrow> string" where
  "strftime t fmt = strftime_fields (\<lambda>y. pad_left CHR ''0'' 4 (str_int y)) fmt (date_of t)"

section \<open>The download URL\<close>

text \<open>
  \<open>IMERG_BASE_URL.format(run=..., date=..., version=..., version_letter=...)\<close>: the
  template of lines 16-20 with each replacement field filled in. A field \<open>{date:%Y}\<close>
  is \<open>date.strftime("%Y")\<close>, a field \<open>{version}\<close> is \<open>str(version)\<close>.
\<close>

definition IMERG_BASE_URL :: "string \<Rightarrow> timestamp \<Rightarrow> int \<Rightarrow> string \<Rightarrow> string" where
  "IMERG_BASE_URL run date version version_letter =
     ''https://gpm1.gesdisc.eosdis.nasa.gov/data/GPM_L3/GPM_3IMERGD''
     @ run @ ''.0'' @ str_int version @ ''/'' @ strftime date ''%Y'' @ ''/'' @ strftime date ''%m''
     @ ''/3B-DAY-'' @ run @ ''.MS.MRG.3IMERG.''
     @ strftime date ''%Y%m%d'' @ ''-S000000-E235959.V0'' @ str_int version @ version_letter @ ''.nc4''"

text \<open>Lines 84-87 of \<open>download_imerg\<close>: the suffix letter and the URL.\<close>

definition download_url :: "timestamp \<Rightarrow> string \<Rightarrow> int \<Rightarrow> string" where
  "download_url date run version =
     (let version_letter = (if version = 7 then ''B'' else [])
      in IMERG_BASE_URL run date version version_letter)"

section \<open>Exceptions\<close>

text \<open>
  Every \<open>raise\<close> is a value: a function that can raise returns \<open>exn + 'a\<close>, with
  \<open>Inl\<close> the exception, and a function with effects returns the world it leaves
  behind as well, whether it raised or not. All of these classes derive from Python's
  \<open>Exception\<close>. \<open>LibraryError\<close> stands for whatever a library taken as a parameter
  raises (netCDF decoding, raster encoding, the storage client).
\<close>

datatype exn =
    RequestException string
  | HTTPError string
  | FileNotFoundError string
  | IsADirectoryError string
  | NotADirectoryError string
  | FileExistsError string
  | KeyError string
  | ValueError string
  | TypeError string
  | AttributeError string
  | LibraryError string

fun str_exn :: "exn \<Rightarrow> string" where
  "str_exn (RequestException m) = m"
| "str_exn (HTTPError m) = m"
| "str_exn (FileNotFoundError p) = ''[Errno 2] No such file or directory: '' @ p"
| "str_exn (IsADirectoryError p) = ''[Errno 21] Is a directory: '' @ p"
| "str_exn (NotADirectoryError p) = ''[Errno 20] Not a directory: '' @ p"
| "str_exn (FileExistsError p) = ''[Errno 17] File exists: '' @ p"
| "str_exn (KeyError k) = k"
| "str_exn (ValueError m) = m"
| "str_exn (TypeError m) = m"
| "str_exn (AttributeError m) = m"
| "str_exn (LibraryError m) = m"

fun map_exn :: "('a \<Rightarrow> exn + 'b) \<Rightarrow> 'a list \<Rightarrow> exn + 'b list" where
  "map_exn f [] = Inr []"
| "map_exn f (x # xs) =
     (case f x of
        Inl e \<Rightarrow> Inl e
      | Inr y \<Rightarrow> (case map_exn f xs of Inl e \<Rightarrow> Inl e | Inr ys \<Rightarrow> Inr (y # ys)))"

section \<open>Parsing a date: \<open>pd.Timestamp(str)\<close>\<close>

text \<open>
  A string of the shape \<open>YYYY-MM-DD\<close> is read as that day of the Gregorian calendar at
  00:00; a day that does not exist, or one whose nanosecond count does not fit 64 bits
  (before 1677-09-22 or after 2262-04-11), raises \<open>ValueError\<close>. pandas hands every other
  spelling to its fallback parser, which is a parameter here.
\<close>

type_synonym bytes = "char list"

definition parse_iso_date :: "string \<Rightarrow> ymd option" where
  "parse_iso_date s =
     (if length s = 10 \<and> s ! 4 = CHR ''-'' \<and> s ! 7 = CHR ''-''
         \<and> list_all is_digit (take 4 s) \<and> list_all is_digit (take 2 (drop 5 s))
         \<and> list_all is_digit (drop 8 s)
      then Some \<lparr>year = int (nat_of_digits (take 4 s)),
                 month = int (nat_of_digits (take 2 (drop 5 s))),
                 day = int (nat_of_digits (drop 8 s))\<rparr>
      else None)"

definition in_bounds :: "int \<Rightarrow> bool" where
  "in_bounds ns = (- (2 ^ 63) < ns \<and> ns < 2 ^ 63)"

definition timestamp_of_date :: "ymd \<Rightarrow> exn + timestamp" where
  "timestamp_of_date c =
     (if \<not> valid_date c then Inl (ValueError ''day is out of range for month'')
      else if \<not> in_bounds (midnight c) then Inl (ValueError ''Out of bounds nanosecond timestamp'')
      else Inr (midnight c))"

definition pd_Timestamp :: "(string \<Rightarrow> exn + timestamp) \<Rightarrow> string \<Rightarrow> exn + timestamp" where
  "pd_Timestamp fallback s =
     (case parse_iso_date s of
        Some c \<Rightarrow> timestamp_of_date c
      | None \<Rightarrow> fallback s)"

text \<open>
  \<open>str(t)\<close> of a Timestamp with no fraction of a second, as the f-string of the driver's
  failure message prints it.
\<close>

definition str_timestamp :: "timestamp \<Rightarrow> string" where
  "str_timestamp t =
     (let s = (t mod ns_per_day) div 1000000000
      in strftime t ''%Y-%m-%d'' @ '' ''
         @ pad_left CHR ''0'' 2 (str_int (s div 3600)) @ '':''
         @ pad_left CHR ''0'' 2 (str_int (s mod 3600 div 60)) @ '':''
         @ pad_left CHR ''0'' 2 (str_int (s mod 60)))"

text \<open>
  \<open>pd.date_range(start, end)\<close> with the default daily frequency: \<open>start\<close>,
  \<open>start\<close> + 1 day, ... as long as \<open>end\<close> is not passed; both ends belong to it.
\<close>

definition date_range :: "timestamp \<Rightarrow> timestamp \<Rightarrow> timestamp list" where
  "date_range start stop = map (\<lambda>k. start + k * ns_per_day) [0..(stop - start) div ns_per_day]"

section \<open>The file system\<close>

text \<open>
  A path names a regular file with its content, a directory, or nothing. Paths are
  compared as they are written, the empty directory name is the working directory, and
  permissions are not modelled: every operation fails only for the shape of the tree.
\<close>

datatype node = File bytes | Dir

type_synonym filesystem = "string \<rightharpoonup> node"

datatype pathlike = PStr string | PPath string

fun fspath :: "pathlike \<Rightarrow> string" where
  "fspath (PStr s) = s"
| "fspath (PPath s) = s"

definition is_file :: "filesystem \<Rightarrow> string \<Rightarrow> bool" where
  "is_file f p = (case f p of Some (File b) \<Rightarrow> True | _ \<Rightarrow> False)"

definition is_dir :: "filesystem \<Rightarrow> string \<Rightarrow> bool" where
  "is_dir f p = (case f p of Some Dir \<Rightarrow> True | _ \<Rightarrow> False)"

definition os_path_exists :: "filesystem \<Rightarrow> string \<Rightarrow> bool" where
  "os_path_exists f p = (p \<noteq> [] \<and> f p \<noteq> None)"

definition os_remove :: "filesystem \<Rightarrow> string \<Rightarrow> exn + filesystem" where
  "os_remove f p =
     (case f p of
        Some (File b) \<Rightarrow> Inr (f(p := None))
      | Some Dir \<Rightarrow> Inl (IsADirectoryError p)
      | None \<Rightarrow> Inl (FileNotFoundError p))"

text \<open>\<open>posixpath.dirname\<close>: up to the last slash, without the slashes that end it.\<close>

definition os_path_dirname :: "string \<Rightarrow> string" where
  "os_path_dirname p =
     (let head = rev (dropWhile (\<lambda>c. c \<noteq> CHR ''/'') (rev p))
      in if head \<noteq> [] \<and> \<not> list_all (\<lambda>c. c = CHR ''/'') head
         then rev (dropWhile (\<lambda>c. c = CHR ''/'') (rev head))
         else head)"

text \<open>
  The directories above a path: its prefixes that end before a slash (\<open>a\<close> and \<open>a/b\<close>
  for \<open>a/b/c\<close>). \<open>os.makedirs(d, exist_ok=True)\<close> creates \<open>d\<close> and those of them that
  are missing; it raises for the empty name and when one of them is a regular file.
\<close>

fun parents_from :: "string \<Rightarrow> string \<Rightarrow> string list" where
  "parents_from acc [] = []"
| "parents_from acc (c # cs) =
     (if c = CHR ''/'' \<and> acc \<noteq> [] \<and> hd acc \<noteq> CHR ''/'' then [rev acc] else [])
     @ parents_from (c # acc) cs"

definition os_makedirs :: "filesystem \<Rightarrow> string \<Rightarrow> exn + filesystem" where
  "os_makedirs f d =
     (if d = [] then Inl (FileNotFoundError d)
      else (case find (is_file f) (parents_from [] d @ [d]) of
              Some p \<Rightarrow> Inl (if p = d then FileExistsError p else NotADirectoryError p)
            | None \<Rightarrow> Inr (fold (\<lambda>p g. g(p \<mapsto> Dir)) (parents_from [] d @ [d]) f)))"

text \<open>
  \<open>open(p, "wb")\<close>: the file is created or emptied; \<open>write\<close> then puts the bytes in.
\<close>

definition open_wb :: "filesystem \<Rightarrow> string \<Rightarrow> exn + filesystem" where
  "open_wb f p =
     (if p = [] then Inl (FileNotFoundError p)
      else if is_dir f p then Inl (IsADirectoryError p)
      else if os_path_dirname p \<noteq> [] \<and> \<not> is_dir f (os_path_dirname p)
        then Inl (if is_file f (os_path_dirname p) then NotADirectoryError p else FileNotFoundError p)
      else Inr (f(p \<mapsto> File [])))"

section \<open>Labelled arrays\<close>

text \<open>
  What the transformer uses of xarray. A variable has named dimensions with their lengths
  (in axis order), a dtype, attributes and values. The numbers of a data variable are kept
  whole as a buffer that no operation here looks into; the items of a one-dimensional
  coordinate are listed, since the transformer reads those of \<open>time\<close> one by one. A
  dataset is a dictionary of variables, some of them marked as coordinates; a data array
  is one named variable with the coordinates that lie along its dimensions.
\<close>

datatype dtype = M8_ns | Object_dtype | Other_dtype

record cftime =
  cf_year :: int
  cf_month :: int
  cf_day :: int
  cf_hour :: int
  cf_minute :: int
  cf_second :: int

datatype pyval = Datetime64 timestamp | CFTime cftime | Plain

datatype 'v array_values = Buffer 'v | Items "pyval list"

record 'v variable =
  vshape :: "(string \<times> nat) list"
  vdtype :: dtype
  vattrs :: "(string \<times> string) list"
  vvalues :: "'v array_values"

record 'v dataset =
  ds_variables :: "(string \<times> 'v variable) list"
  ds_coord_names :: "string list"

record 'v data_array =
  da_name :: string
  da_variable :: "'v variable"
  da_coords :: "(string \<times> 'v variable) list"

definition vdims :: "'v variable \<Rightarrow> string list" where
  "vdims v = map fst (vshape v)"

definition ds_sizes :: "'v dataset \<Rightarrow> (string \<times> nat) list" where
  "ds_sizes ds = concat (map (\<lambda>(n, v). vshape v) (ds_variables ds))"

definition ds_dims :: "'v dataset \<Rightarrow> string list" where
  "ds_dims ds = remdups (map fst (ds_sizes ds))"

text \<open>
  \<open>Dataset.transpose(*dims)\<close>: the names must be exactly the dimensions of the dataset;
  every variable gets its own dimensions in the order given.
\<close>

definition transpose_variable :: "string list \<Rightarrow> 'v variable \<Rightarrow> 'v variable" where
  "transpose_variable order v =
     v\<lparr>vshape := concat (map (\<lambda>d. filter (\<lambda>(n, s). n = d) (vshape v)) order)\<rparr>"

definition transpose_ds :: "string list \<Rightarrow> 'v dataset \<Rightarrow> exn + 'v dataset" where
  "transpose_ds order ds =
     (if set order \<noteq> set (ds_dims ds)
      then Inl (ValueError ''must be a permuted list of the dimensions'')
      else Inr (ds\<lparr>ds_variables := map (\<lambda>(n, v). (n, transpose_variable order v)) (ds_variables ds)\<rparr>))"

text \<open>\<open>name in ds\<close> and \<open>ds[name]\<close>.\<close>

definition contains :: "'v dataset \<Rightarrow> string \<Rightarrow> bool" where
  "contains ds name = (name \<in> set (map fst (ds_variables ds)))"

text \<open>
  A dimension that has no variable of its name is read as the index 0, 1, ... of its
  length (integers); any other unknown name (without a dot) is a \<open>KeyError\<close>.
\<close>

definition virtual_variable :: "(string \<times> nat) list \<Rightarrow> string \<Rightarrow> exn + 'v variable" where
  "virtual_variable sizes name =
     (case map_of sizes name of
        Some n \<Rightarrow> Inr \<lparr>vshape = [(name, n)], vdtype = Other_dtype, vattrs = [],
                       vvalues = Items (replicate n Plain)\<rparr>
      | None \<Rightarrow> Inl (KeyError name))"

definition getitem_ds :: "'v dataset \<Rightarrow> string \<Rightarrow> exn + 'v data_array" where
  "getitem_ds ds name =
     (case (case map_of (ds_variables ds) name of
              Some v \<Rightarrow> Inr v
            | None \<Rightarrow> virtual_variable (ds_sizes ds) name) of
        Inl e \<Rightarrow> Inl e
      | Inr v \<Rightarrow>
          Inr \<lparr>da_name = name, da_variable = v,
               da_coords = filter (\<lambda>(k, c). k \<in> set (ds_coord_names ds) \<and> set (vdims c) \<subseteq> set (vdims v))
                             (ds_variables ds)\<rparr>)"

text \<open>\<open>da[name]\<close> for a string: the coordinate of that name.\<close>

definition getitem_coord :: "'v data_array \<Rightarrow> string \<Rightarrow> exn + 'v variable" where
  "getitem_coord da name =
     (case map_of (da_coords da) name of
        Some v \<Rightarrow> Inr v
      | None \<Rightarrow> virtual_variable (vshape (da_variable da)) name)"

text \<open>
  Iterating over \<open>.values\<close>: a 0-dimensional array cannot be iterated; a one-dimensional
  one gives its items; one with more dimensions gives its rows, which like numbers and
  strings have no \<open>strftime\<close>.
\<close>

definition iter_values :: "'v variable \<Rightarrow> exn + pyval list" where
  "iter_values v =
     (case vshape v of
        [] \<Rightarrow> Inl (TypeError ''iteration over a 0-d array'')
      | [(d, n)] \<Rightarrow> (case vvalues v of Items xs \<Rightarrow> Inr xs | Buffer b \<Rightarrow> Inr (replicate n Plain))
      | (d, n) # rest \<Rightarrow> Inr (replicate n Plain))"

text \<open>
  \<open>t.strftime("%Y-%m-%d")\<close> exists for a cftime date only (a \<open>numpy.datetime64\<close>, a
  number or a string has no such method).
\<close>

definition cftime_strftime :: "cftime \<Rightarrow> string \<Rightarrow> string" where
  "cftime_strftime t fmt =
     strftime_fields (\<lambda>y. pad_left CHR '' '' 4 (str_int y)) fmt
       \<lparr>year = cf_year t, month = cf_month t, day = cf_day t\<rparr>"

definition pyval_strftime :: "pyval \<Rightarrow> string \<Rightarrow> exn + string" where
  "pyval_strftime t fmt =
     (case t of
        CFTime c \<Rightarrow> Inr (cftime_strftime c fmt)
      | _ \<Rightarrow> Inl (AttributeError ''object has no attribute strftime''))"

text \<open>
  \<open>da["time"] = pd.to_datetime(stamps)\<close>: a coordinate along the dimension \<open>time\<close>, of
  dtype \<open>datetime64[ns]\<close>; the array must have that dimension, with as many entries.
\<close>

definition to_datetime :: "timestamp list \<Rightarrow> 'v variable" where
  "to_datetime stamps =
     \<lparr>vshape = [(''time'', length stamps)], vdtype = M8_ns, vattrs = [],
      vvalues = Items (map Datetime64 stamps)\<rparr>"

definition setitem_coord :: "'v data_array \<Rightarrow> string \<Rightarrow> 'v variable \<Rightarrow> exn + 'v data_array" where
  "setitem_coord da name v =
     (if list_all (\<lambda>(d, n). map_of (vshape (da_variable da)) d = Some n) (vshape v)
      then Inr (da\<lparr>da_coords := AList.update name v (da_coords da)\<rparr>)
      else Inl (ValueError ''cannot add coordinates with new or conflicting dimensions''))"

text \<open>
  \<open>da.rename({"lon": "x", "lat": "y"})\<close>: every old name must be a dimension or a
  coordinate of the array; dimensions and coordinates are renamed; two coordinates
  ending under one name is an error.
\<close>

definition rename_name :: "(string \<times> string) list \<Rightarrow> string \<Rightarrow> string" where
  "rename_name name_dict k = (case map_of name_dict k of Some k' \<Rightarrow> k' | None \<Rightarrow> k)"

definition rename_variable :: "(string \<times> string) list \<Rightarrow> 'v variable \<Rightarrow> 'v variable" where
  "rename_variable name_dict v = v\<lparr>vshape := map (\<lambda>(d, n). (rename_name name_dict d, n)) (vshape v)\<rparr>"

definition rename_da :: "(string \<times> string) list \<Rightarrow> 'v data_array \<Rightarrow> exn + 'v data_array" where
  "rename_da name_dict da =
     (if \<not> list_all (\<lambda>(k, k'). k \<in> set (map fst (da_coords da)) \<or> k \<in> set (vdims (da_variable da))) name_dict
      then Inl (ValueError ''cannot rename: not a variable or dimension'')
      else if \<not> distinct (map (\<lambda>(k, c). rename_name name_dict k) (da_coords da))
      then Inl (ValueError ''the new name conflicts'')
      else Inr (da\<lparr>da_variable := rename_variable name_dict (da_variable da),
                   da_coords := map (\<lambda>(k, c). (rename_name name_dict k, rename_variable name_dict c))
                                  (da_coords da)\<rparr>))"

text \<open>
  \<open>da.squeeze(drop=True)\<close>: every dimension of length 1 of the array is indexed at 0 and
  so removed; a coordinate that lay along such a dimension loses it, and is dropped when
  nothing is left of its dimensions (\<open>drop=True\<close>).
\<close>

definition squeeze_dims :: "'v data_array \<Rightarrow> string list" where
  "squeeze_dims da = map fst (filter (\<lambda>(d, n). n = 1) (vshape (da_variable da)))"

definition isel_variable :: "string list \<Rightarrow> 'v variable \<Rightarrow> 'v variable" where
  "isel_variable dims v = v\<lparr>vshape := filter (\<lambda>(d, n). d \<notin> set dims) (vshape v)\<rparr>"

definition squeeze_drop :: "'v data_array \<Rightarrow> 'v data_array" where
  "squeeze_drop da =
     (let dims = squeeze_dims da
      in da\<lparr>da_variable := isel_variable dims (da_variable da),
            da_coords :=
              concat (map (\<lambda>(k, c).
                        if set (vdims c) \<inter> set dims = {} then [(k, c)]
                        else if vshape (isel_variable dims c) = [] then []
                        else [(k, isel_variable dims c)])
                      (da_coords da))\<rparr>)"

section \<open>The world the pipeline runs in\<close>

text \<open>
  The state that the functions read and change: the local files, the blobs of the remote
  container, the standard output, the GET requests sent so far, and a counter for the
  names of temporary files. \<open>calls\<close> records, for the statements about which stage is
  invoked, each call the driver makes, tagged with the date of the iteration.
\<close>

datatype call = Fetch timestamp | Transform timestamp | Publish timestamp string

record world =
  fs :: filesystem
  blobs :: "(string \<times> bytes) list"
  stdout :: "string list"
  http_log :: "string list"
  tmp_count :: nat
  calls :: "call list"

text \<open>
  What the program cannot decide: the server's answer to a GET (an exception of
  \<open>requests\<close>, or a response), the decoder of netCDF bytes, the fallback date parser,
  the raster encoder, the names \<open>tempfile\<close> picks, the failures of the storage client,
  and the date of the day.
\<close>

record response =
  status_code :: int
  reason :: string
  content :: bytes

record 'v env =
  http_get :: "string \<Rightarrow> string + response"
  decode_netcdf :: "bytes \<Rightarrow> exn + 'v dataset"
  dateutil_parse :: "string \<Rightarrow> exn + timestamp"
  to_raster :: "'v data_array \<Rightarrow> exn + bytes"
  tmp_name :: "nat \<Rightarrow> string"
  list_blobs_error :: "exn option"
  upload_error :: "string \<Rightarrow> exn option"
  today :: ymd

definition print :: "string \<Rightarrow> world \<Rightarrow> world" where
  "print line w = w\<lparr>stdout := stdout w @ [line]\<rparr>"

definition note_call :: "call \<Rightarrow> world \<Rightarrow> world" where
  "note_call c w = w\<lparr>calls := calls w @ [c]\<rparr>"

text \<open>\<open>Response.raise_for_status\<close> of requests: 4xx and 5xx raise \<open>HTTPError\<close>.\<close>

definition raise_for_status :: "string \<Rightarrow> response \<Rightarrow> exn + unit" where
  "raise_for_status url r =
     (if 400 \<le> status_code r \<and> status_code r < 500
      then Inl (HTTPError (str_int (status_code r) @ '' Client Error: '' @ reason r @ '' for url: '' @ url))
      else if 500 \<le> status_code r \<and> status_code r < 600
      then Inl (HTTPError (str_int (status_code r) @ '' Server Error: '' @ reason r @ '' for url: '' @ url))
      else Inr ())"

section \<open>The fetcher: \<open>download_imerg\<close>\<close>

text \<open>
  Lines 82-98. \<open>save_path\<close> is a \<open>str\<close> or, as the default is, a \<open>Path\<close>; the
  concatenation of line 98 is defined for a \<open>str\<close> only. Lines 82-83 remove the old
  file, lines 92-93 make the directory of the new one.
\<close>

definition remove_existing :: "filesystem \<Rightarrow> string \<Rightarrow> exn + filesystem" where
  "remove_existing f p = (if os_path_exists f p then os_remove f p else Inr f)"

definition make_parent :: "filesystem \<Rightarrow> string \<Rightarrow> exn + filesystem" where
  "make_parent f p =
     (if \<not> os_path_exists f (os_path_dirname p) then os_makedirs f (os_path_dirname p) else Inr f)"

text \<open>Lines 84-98: what follows the removal of the old file.\<close>

definition fetch_and_write ::
  "'v env \<Rightarrow> timestamp \<Rightarrow> string \<Rightarrow> int \<Rightarrow> pathlike \<Rightarrow> bool \<Rightarrow> world \<Rightarrow> world \<times> (exn + unit)" where
  "fetch_and_write env date run version save_path verbose w =
     (let p = fspath save_path;
          url = download_url date run version;
          w1 = (if verbose then print (''downloading from '' @ url) w else w);
          w2 = w1\<lparr>http_log := http_log w1 @ [url]\<rparr>
      in case http_get env url of
           Inl msg \<Rightarrow> (w2, Inl (RequestException msg))
         | Inr result \<Rightarrow>
             (case raise_for_status url result of
                Inl e \<Rightarrow> (w2, Inl e)
              | Inr u \<Rightarrow>
                  (case make_parent (fs w2) p of
                     Inl e \<Rightarrow> (w2, Inl e)
                   | Inr fs3 \<Rightarrow>
                       (case open_wb fs3 p of
                          Inl e \<Rightarrow> (w2\<lparr>fs := fs3\<rparr>, Inl e)
                        | Inr fs4 \<Rightarrow>
                            let w3 = w2\<lparr>fs := fs4(p \<mapsto> File (content result))\<rparr>
                            in if verbose
                               then (case save_path of
                                       PStr s \<Rightarrow> (print (''contents of URL written to '' @ s) w3, Inr ())
                                     | PPath s \<Rightarrow>
                                         (w3, Inl (TypeError ''can only concatenate str (not PosixPath) to str'')))
                               else (w3, Inr ())))))"

definition download_imerg ::
  "'v env \<Rightarrow> timestamp \<Rightarrow> string \<Rightarrow> int \<Rightarrow> pathlike \<Rightarrow> bool \<Rightarrow> world \<Rightarrow> world \<times> (exn + unit)" where
  "download_imerg env date run version save_path verbose w =
     (case remove_existing (fs w) (fspath save_path) of
        Inl e \<Rightarrow> (w, Inl e)
      | Inr fs1 \<Rightarrow> fetch_and_write env date run version save_path verbose (w\<lparr>fs := fs1\<rparr>))"

section \<open>The transformer: \<open>process_imerg\<close>\<close>

text \<open>Lines 104-106: the calibrated variable when the dataset has it.\<close>

definition var_name_of :: "'v dataset \<Rightarrow> string" where
  "var_name_of ds = (if contains ds ''precipitationCal'' then ''precipitationCal'' else ''precipitation'')"

text \<open>Lines 109-111: each time value formatted as a date and parsed again.\<close>

definition reparse_time :: "'v env \<Rightarrow> pyval \<Rightarrow> exn + timestamp" where
  "reparse_time env t =
     (case pyval_strftime t ''%Y-%m-%d'' of
        Inl e \<Rightarrow> Inl e
      | Inr s \<Rightarrow> pd_Timestamp (dateutil_parse env) s)"

definition normalise_time :: "'v env \<Rightarrow> 'v data_array \<Rightarrow> exn + 'v data_array" where
  "normalise_time env da =
     (case getitem_coord da ''time'' of
        Inl e \<Rightarrow> Inl e
      | Inr tv \<Rightarrow>
          (case iter_values tv of
             Inl e \<Rightarrow> Inl e
           | Inr ts \<Rightarrow>
               (case map_exn (reparse_time env) ts of
                  Inl e \<Rightarrow> Inl e
                | Inr stamps \<Rightarrow> setitem_coord da ''time'' (to_datetime stamps))))"

text \<open>Lines 108-111: the time coordinate is rewritten unless its dtype is \<open><M8[ns]\<close>.\<close>

definition fix_time :: "'v env \<Rightarrow> 'v dataset \<Rightarrow> 'v data_array \<Rightarrow> exn + 'v data_array" where
  "fix_time env ds da =
     (case getitem_ds ds ''time'' of
        Inl e \<Rightarrow> Inl e
      | Inr tm \<Rightarrow> if vdtype (da_variable tm) \<noteq> M8_ns then normalise_time env da else Inr da)"

definition xr_open_dataset :: "'v env \<Rightarrow> world \<Rightarrow> string \<Rightarrow> exn + 'v dataset" where
  "xr_open_dataset env w path =
     (case fs w path of
        Some (File b) \<Rightarrow> decode_netcdf env b
      | Some Dir \<Rightarrow> Inl (IsADirectoryError path)
      | None \<Rightarrow> Inl (FileNotFoundError path))"

definition process_imerg :: "'v env \<Rightarrow> string \<Rightarrow> world \<Rightarrow> exn + 'v data_array" where
  "process_imerg env path w =
     (case xr_open_dataset env w path of
        Inl e \<Rightarrow> Inl e
      | Inr ds0 \<Rightarrow>
          (case transpose_ds [''lat'', ''lon'', ''time'', ''nv''] ds0 of
             Inl e \<Rightarrow> Inl e
           | Inr ds \<Rightarrow>
               (case getitem_ds ds (var_name_of ds) of
                  Inl e \<Rightarrow> Inl e
                | Inr da \<Rightarrow>
                    (case fix_time env ds da of
                       Inl e \<Rightarrow> Inl e
                     | Inr da1 \<Rightarrow>
                         (case rename_da [(''lon'', ''x''), (''lat'', ''y'')] da1 of
                            Inl e \<Rightarrow> Inl e
                          | Inr da2 \<Rightarrow> Inr (squeeze_drop da2))))))"

section \<open>The publisher: \<open>upload_imerg\<close>\<close>

text \<open>
  A new temporary file is created (and never removed), the raster is written into it,
  its bytes are read back and uploaded under the blob name, replacing a blob of that name.
\<close>

definition upload_imerg :: "'v env \<Rightarrow> 'v data_array \<Rightarrow> string \<Rightarrow> world \<Rightarrow> world \<times> (exn + unit)" where
  "upload_imerg env da output_path w =
     (let temp_filename = tmp_name env (tmp_count w);
          w1 = w\<lparr>fs := (fs w)(temp_filename \<mapsto> File []), tmp_count := Suc (tmp_count w)\<rparr>
      in case to_raster env da of
           Inl e \<Rightarrow> (w1, Inl e)
         | Inr tif \<Rightarrow>
             let w2 = w1\<lparr>fs := (fs w1)(temp_filename \<mapsto> File tif)\<rparr>
             in (case upload_error env output_path of
                   Some e \<Rightarrow> (w2, Inl e)
                 | None \<Rightarrow> (w2\<lparr>blobs := AList.update output_path tif (blobs w2)\<rparr>, Inr ())))"

section \<open>The driver: \<open>download_recent_imerg\<close>\<close>

definition list_blobs :: "'v env \<Rightarrow> world \<Rightarrow> string \<Rightarrow> exn + string list" where
  "list_blobs env w name_starts_with =
     (case list_blobs_error env of
        Some e \<Rightarrow> Inl e
      | None \<Rightarrow> Inr (filter (prefix name_starts_with) (map fst (blobs w))))"

definition output_blob_of :: "timestamp \<Rightarrow> string" where
  "output_blob_of date = ''imerg/v7/imerg-daily-late-'' @ strftime date ''%Y-%m-%d'' @ ''.tif''"

text \<open>Lines 48-50, the body of the \<open>try\<close>: the first stage that raises ends it.\<close>

definition try_body :: "'v env \<Rightarrow> timestamp \<Rightarrow> string \<Rightarrow> world \<Rightarrow> world \<times> (exn + unit)" where
  "try_body env date output_blob w =
     (case download_imerg env date ''L'' 7 (PPath ''temp/imerg_temp.nc'') False (note_call (Fetch date) w) of
        (w1, Inl e) \<Rightarrow> (w1, Inl e)
      | (w1, Inr u) \<Rightarrow>
          (case process_imerg env ''temp/imerg_temp.nc'' (note_call (Transform date) w1) of
             Inl e \<Rightarrow> (note_call (Transform date) w1, Inl e)
           | Inr da \<Rightarrow>
               upload_imerg env da output_blob
                 (note_call (Publish date output_blob) (note_call (Transform date) w1))))"

text \<open>Lines 39-53, one turn of the loop.\<close>

definition loop_body :: "'v env \<Rightarrow> string list \<Rightarrow> world \<Rightarrow> timestamp \<Rightarrow> world" where
  "loop_body env existing_files w date =
     (let output_blob = output_blob_of date
      in if output_blob \<in> set existing_files
         then print (output_blob @ '' already exists, skipping'') w
         else (case try_body env date output_blob (print (''downloading and processing '' @ output_blob) w) of
                 (w1, Inl e) \<Rightarrow> print (str_exn e) (print (''failed to download and process '' @ str_timestamp date) w1)
               | (w1, Inr u) \<Rightarrow> w1))"

text \<open>
  Lines 30-38: the listing is taken once, then the loop runs over the days from
  2024-06-01 to the day before today. \<open>today - pd.DateOffset(days=1)\<close> is the Timestamp
  of today's date less one day.
\<close>

definition download_recent_imerg :: "'v env \<Rightarrow> world \<Rightarrow> world \<times> (exn + unit)" where
  "download_recent_imerg env w =
     (case list_blobs env w ''imerg/v7'' of
        Inl e \<Rightarrow> (w, Inl e)
      | Inr existing_files \<Rightarrow>
          (case pd_Timestamp (dateutil_parse env) ''2024-06-01'' of
             Inl e \<Rightarrow> (w, Inl e)
           | Inr start \<Rightarrow>
               (case timestamp_of_date (today env) of
                  Inl e \<Rightarrow> (w, Inl e)
                | Inr t \<Rightarrow>
                    (foldl (loop_body env existing_files) w (date_range start (t - ns_per_day)), Inr ()))))"

text \<open>The exceptions that the file-system steps raise (subclasses of \<open>OSError\<close>).\<close>

fun is_os_error :: "exn \<Rightarrow> bool" where
  "is_os_error (FileNotFoundError p) = True"
| "is_os_error (IsADirectoryError p) = True"
| "is_os_error (NotADirectoryError p) = True"
| "is_os_error (FileExistsError p) = True"
| "is_os_error e = False"

text \<open>
  The calls one turn of the loop makes for a date that is not skipped: the stages in
  order, up to the first that raises.
\<close>

definition attempt_of :: "timestamp \<Rightarrow> call list \<Rightarrow> bool" where
  "attempt_of d cs =
     (cs = [Fetch d] \<or> cs = [Fetch d, Transform d]
      \<or> cs = [Fetch d, Transform d, Publish d (output_blob_of d)])"

fun call_date :: "call \<Rightarrow> timestamp" where
  "call_date (Fetch d) = d"
| "call_date (Transform d) = d"
| "call_date (Publish d b) = d"

section \<open>Example worlds\<close>

text \<open>
  Concrete servers, file systems and datasets, on which the statements below are run.
  The buffer of a data variable is a number that tells the variables apart.
\<close>

definition example_date :: timestamp where
  "example_date = 1717200000000000000"

definition example_dataset :: "nat dataset" where
  "example_dataset =
     \<lparr>ds_variables =
        [(''time'', \<lparr>vshape = [(''time'', 1)], vdtype = M8_ns, vattrs = [],
                    vvalues = Items [Datetime64 1717200000000000000]\<rparr>),
         (''lon'', \<lparr>vshape = [(''lon'', 4)], vdtype = Other_dtype, vattrs = [], vvalues = Buffer 10\<rparr>),
         (''lat'', \<lparr>vshape = [(''lat'', 3)], vdtype = Other_dtype, vattrs = [], vvalues = Buffer 11\<rparr>),
         (''precipitation'', \<lparr>vshape = [(''time'', 1), (''lon'', 4), (''lat'', 3)], vdtype = Other_dtype,
                             vattrs = [(''units'', ''mm/day'')], vvalues = Buffer 1\<rparr>),
         (''time_bnds'', \<lparr>vshape = [(''time'', 1), (''nv'', 2)], vdtype = M8_ns, vattrs = [],
                         vvalues = Buffer 12\<rparr>)],
      ds_coord_names = [''time'', ''lon'', ''lat'']\<rparr>"

definition example_cftime :: cftime where
  "example_cftime = \<lparr>cf_year = 2020, cf_month = 2, cf_day = 29, cf_hour = 12, cf_minute = 30, cf_second = 0\<rparr>"

definition example_dataset_v6 :: "nat dataset" where
  "example_dataset_v6 =
     \<lparr>ds_variables =
        [(''time'', \<lparr>vshape = [(''time'', 2)], vdtype = Object_dtype, vattrs = [],
                    vvalues = Items [CFTime example_cftime, CFTime (example_cftime\<lparr>cf_month := 3, cf_day := 1\<rparr>)]\<rparr>),
         (''lon'', \<lparr>vshape = [(''lon'', 4)], vdtype = Other_dtype, vattrs = [], vvalues = Buffer 10\<rparr>),
         (''lat'', \<lparr>vshape = [(''lat'', 3)], vdtype = Other_dtype, vattrs = [], vvalues = Buffer 11\<rparr>),
         (''precipitation'', \<lparr>vshape = [(''time'', 2), (''lon'', 4), (''lat'', 3)], vdtype = Other_dtype,
                             vattrs = [], vvalues = Buffer 1\<rparr>),
         (''precipitationCal'', \<lparr>vshape = [(''time'', 2), (''lon'', 4), (''lat'', 3)], vdtype = Other_dtype,
                                vattrs = [], vvalues = Buffer 2\<rparr>),
         (''time_bnds'', \<lparr>vshape = [(''time'', 2), (''nv'', 2)], vdtype = Object_dtype, vattrs = [],
                         vvalues = Buffer 12\<rparr>)],
      ds_coord_names = [''time'', ''lon'', ''lat'']\<rparr>"

definition example_env :: "(string \<Rightarrow> string + response) \<Rightarrow> nat dataset \<Rightarrow> nat env" where
  "example_env server ds =
     \<lparr>http_get = server,
      decode_netcdf = (\<lambda>b. if b = ''nc'' then Inr ds else Inl (LibraryError ''not a netCDF file'')),
      dateutil_parse = (\<lambda>s. Inl (ValueError ''Unknown datetime string format'')),
      to_raster = (\<lambda>da. Inr ''tif''),
      tmp_name = (\<lambda>n. ''/tmp/tmp'' @ str_nat n @ ''.tif''),
      list_blobs_error = None,
      upload_error = (\<lambda>name. None),
      today = \<lparr>year = 2024, month = 6, day = 3\<rparr>\<rparr>"

definition server_ok :: "string \<Rightarrow> string + response" where
  "server_ok url = Inr \<lparr>status_code = 200, reason = ''OK'', content = ''nc''\<rparr>"

definition server_404 :: "string \<Rightarrow> string + response" where
  "server_404 url = Inr \<lparr>status_code = 404, reason = ''Not Found'', content = ''<html>''\<rparr>"

definition server_304 :: "string \<Rightarrow> string + response" where
  "server_304 url = Inr \<lparr>status_code = 304, reason = ''Not Modified'', content = []\<rparr>"

text \<open>A server that has the granule of 2024-06-02 only.\<close>

definition server_second_day :: "string \<Rightarrow> string + response" where
  "server_second_day url =
     (if url = download_url (example_date + ns_per_day) ''L'' 7 then server_ok url else server_404 url)"

definition empty_world :: world where
  "empty_world = \<lparr>fs = Map.empty, blobs = [], stdout = [], http_log = [], tmp_count = 0, calls = []\<rparr>"

definition stale_world :: world where
  "stale_world = empty_world\<lparr>fs := [''temp'' \<mapsto> Dir, ''temp/imerg_temp.nc'' \<mapsto> File ''old'']\<rparr>"

definition blocked_world :: world where
  "blocked_world = empty_world\<lparr>fs := [''temp'' \<mapsto> File []]\<rparr>"

text \<open>The world after a fetch, and what the transformer returns for each dataset.\<close>

definition fetched_world :: world where
  "fetched_world = empty_world\<lparr>fs := [''temp'' \<mapsto> Dir, ''temp/imerg_temp.nc'' \<mapsto> File ''nc'']\<rparr>"

definition example_array :: "nat data_array" where
  "example_array =
     \<lparr>da_name = ''precipitation'',
      da_variable = \<lparr>vshape = [(''y'', 3), (''x'', 4)], vdtype = Other_dtype,
                      vattrs = [(''units'', ''mm/day'')], vvalues = Buffer 1\<rparr>,
      da_coords =
        [(''x'', \<lparr>vshape = [(''x'', 4)], vdtype = Other_dtype, vattrs = [], vvalues = Buffer 10\<rparr>),
         (''y'', \<lparr>vshape = [(''y'', 3)], vdtype = Other_dtype, vattrs = [], vvalues = Buffer 11\<rparr>)]\<rparr>"

definition example_array_v6 :: "nat data_array" where
  "example_array_v6 =
     \<lparr>da_name = ''precipitationCal'',
      da_variable = \<lparr>vshape = [(''y'', 3), (''x'', 4), (''time'', 2)], vdtype = Other_dtype,
                      vattrs = [], vvalues = Buffer 2\<rparr>,
      da_coords =
        [(''time'', \<lparr>vshape = [(''time'', 2)], vdtype = M8_ns, vattrs = [],
                    vvalues = Items [Datetime64 1582934400000000000, Datetime64 1583020800000000000]\<rparr>),
         (''x'', \<lparr>vshape = [(''x'', 4)], vdtype = Other_dtype, vattrs = [], vvalues = Buffer 10\<rparr>),
         (''y'', \<lparr>vshape = [(''y'', 3)], vdtype = Other_dtype, vattrs = [], vvalues = Buffer 11\<rparr>)]\<rparr>"

text \<open>A granule cut down to one column of the grid: \<open>lon\<close> has a single entry.\<close>

definition example_dataset_column :: "nat dataset" where
  "example_dataset_column =
     \<lparr>ds_variables =
        [(''time'', \<lparr>vshape = [(''time'', 1)], vdtype = M8_ns, vattrs = [],
                    vvalues = Items [Datetime64 1717200000000000000]\<rparr>),
         (''lon'', \<lparr>vshape = [(''lon'', 1)], vdtype = Other_dtype, vattrs = [], vvalues = Buffer 10\<rparr>),
         (''lat'', \<lparr>vshape = [(''lat'', 3)], vdtype = Other_dtype, vattrs = [], vvalues = Buffer 11\<rparr>),
         (''precipitation'', \<lparr>vshape = [(''time'', 1), (''lon'', 1), (''lat'', 3)], vdtype = Other_dtype,
                             vattrs = [(''units'', ''mm/day'')], vvalues = Buffer 1\<rparr>),
         (''time_bnds'', \<lparr>vshape = [(''time'', 1), (''nv'', 2)], vdtype = M8_ns, vattrs = [],
                         vvalues = Buffer 12\<rparr>)],
      ds_coord_names = [''time'', ''lon'', ''lat'']\<rparr>"

definition example_array_column :: "nat data_array" where
  "example_array_column =
     \<lparr>da_name = ''precipitation'',
      da_variable = \<lparr>vshape = [(''y'', 3)], vdtype = Other_dtype,
                      vattrs = [(''units'', ''mm/day'')], vvalues = Buffer 1\<rparr>,
      da_coords =
        [(''y'', \<lparr>vshape = [(''y'', 3)], vdtype = Other_dtype, vattrs = [], vvalues = Buffer 11\<rparr>)]\<rparr>"

text \<open>A container that already holds the raster of 2024-06-01.\<close>

definition skip_world :: world where
  "skip_world = empty_world\<lparr>blobs := [(''imerg/v7/imerg-daily-late-2024-06-01.tif'', ''tif'')]\<rparr>"

section \<open>Facts about the text functions\<close>

lemma strftime_Y: "strftime t ''%Y'' = pad_left CHR ''0'' 4 (str_int (year (date_of t)))"
  by (simp add: strftime_def directive_def)
lemma strftime_m: "strftime t ''%m'' = pad_left CHR ''0'' 2 (str_int (month (date_of t)))"
  by (simp add: strftime_def directive_def)
lemma strftime_Ymd: "strftime t ''%Y%m%d'' = pad_left CHR ''0'' 4 (str_int (year (date_of t))) @ pad_left CHR ''0'' 2 (str_int (month (date_of t))) @ pad_left CHR ''0'' 2 (str_int (day (date_of t)))"
  by (simp add: strftime_def directive_def)
lemma strftime_Y_m_d: "strftime t ''%Y-%m-%d'' = pad_left CHR ''0'' 4 (str_int (year (date_of t))) @ ''-'' @ pad_left CHR ''0'' 2 (str_int (month (date_of t))) @ ''-'' @ pad_left CHR ''0'' 2 (str_int (day (date_of t)))"
  by (simp add: strftime_def directive_def)

section \<open>The URL of a granule\<close>

text \<open>
  Claim C3. For every date, run designator and version, the URL that \<open>download_imerg\<close>
  requests is the template with run, version and date put in: for version 7 it ends in
  \<open>V07B.nc4\<close>, for any other version no letter follows the version number, and version 6
  gives \<open>V06.nc4\<close>.
\<close>

theorem download_url_version_letter:
  "suffix ''V07B.nc4'' (download_url date run 7)
   \<and> suffix ''V06.nc4'' (download_url date run 6)
   \<and> (version \<noteq> 7 \<longrightarrow> suffix (''.V0'' @ str_int version @ ''.nc4'') (download_url date run version))
   \<and> download_url date run version =
       ''https://gpm1.gesdisc.eosdis.nasa.gov/data/GPM_L3/GPM_3IMERGD'' @ run @ ''.0'' @ str_int version
       @ ''/'' @ pad_left CHR ''0'' 4 (str_int (year (date_of date)))
       @ ''/'' @ pad_left CHR ''0'' 2 (str_int (month (date_of date)))
       @ ''/3B-DAY-'' @ run @ ''.MS.MRG.3IMERG.''
       @ pad_left CHR ''0'' 4 (str_int (year (date_of date)))
       @ pad_left CHR ''0'' 2 (str_int (month (date_of date)))
       @ pad_left CHR ''0'' 2 (str_int (day (date_of date)))
       @ ''-S000000-E235959.V0'' @ str_int version @ (if version = 7 then ''B'' else []) @ ''.nc4''"
proof -
  have seven: "str_int 7 = ''7''" and six: "str_int 6 = ''6''"
    by (simp_all add: str_int_def str_nat.simps digit_char_def)
  have shape: "download_url date run v =
      (''https://gpm1.gesdisc.eosdis.nasa.gov/data/GPM_L3/GPM_3IMERGD'' @ run @ ''.0'' @ str_int v
       @ ''/'' @ strftime date ''%Y'' @ ''/'' @ strftime date ''%m'' @ ''/3B-DAY-'' @ run
       @ ''.MS.MRG.3IMERG.'' @ strftime date ''%Y%m%d'' @ ''-S000000-E235959'')
      @ (''.V0'' @ str_int v @ (if v = 7 then ''B'' else []) @ ''.nc4'')" for v
    by (simp add: download_url_def IMERG_BASE_URL_def)
  have s7: "suffix ''V07B.nc4'' (download_url date run 7)"
    unfolding shape [of 7] suffix_def by (simp add: seven)
  have s6: "suffix ''V06.nc4'' (download_url date run 6)"
    unfolding shape [of 6] suffix_def by (simp add: six)
  have other: "version \<noteq> 7 \<longrightarrow> suffix (''.V0'' @ str_int version @ ''.nc4'') (download_url date run version)"
    unfolding shape [of version] suffix_def by auto
  have full: "download_url date run version =
       ''https://gpm1.gesdisc.eosdis.nasa.gov/data/GPM_L3/GPM_3IMERGD'' @ run @ ''.0'' @ str_int version
       @ ''/'' @ pad_left CHR ''0'' 4 (str_int (year (date_of date)))
       @ ''/'' @ pad_left CHR ''0'' 2 (str_int (month (date_of date)))
       @ ''/3B-DAY-'' @ run @ ''.MS.MRG.3IMERG.''
       @ pad_left CHR ''0'' 4 (str_int (year (date_of date)))
       @ pad_left CHR ''0'' 2 (str_int (month (date_of date)))
       @ pad_left CHR ''0'' 2 (str_int (day (date_of date)))
       @ ''-S000000-E235959.V0'' @ str_int version @ (if version = 7 then ''B'' else []) @ ''.nc4''"
    by (simp add: download_url_def IMERG_BASE_URL_def strftime_Y strftime_m strftime_Ymd)
  from s7 s6 other full show ?thesis by blast
qed

theorem download_url_version_letter_witness:
  "(5::int) \<noteq> 7 \<and> suffix ''.V05.nc4'' (download_url 1717200000000000000 ''L'' 5)
   \<and> download_url 1717200000000000000 ''L'' 7 =
     ''https://gpm1.gesdisc.eosdis.nasa.gov/data/GPM_L3/GPM_3IMERGDL.07/2024/06/3B-DAY-L.MS.MRG.3IMERG.20240601-S000000-E235959.V07B.nc4''"
proof -
  have five: "str_int 5 = ''5''"
    by (simp add: str_int_def str_nat.simps digit_char_def)
  have "(5::int) \<noteq> 7 \<longrightarrow> suffix (''.V0'' @ str_int 5 @ ''.nc4'') (download_url 1717200000000000000 ''L'' 5)"
    using download_url_version_letter [of 1717200000000000000 "''L''" 5] by blast
  then have a: "suffix ''.V05.nc4'' (download_url 1717200000000000000 ''L'' 5)"
    by (simp add: five)
  have d: "date_of 1717200000000000000 = \<lparr>year = 2024, month = 6, day = 1\<rparr>"
    by code_simp
  have b: "download_url 1717200000000000000 ''L'' 7 =
     ''https://gpm1.gesdisc.eosdis.nasa.gov/data/GPM_L3/GPM_3IMERGDL.07/2024/06/3B-DAY-L.MS.MRG.3IMERG.20240601-S000000-E235959.V07B.nc4''"
    by (simp add: download_url_def IMERG_BASE_URL_def strftime_Y strftime_m strftime_Ymd d pad_left_def str_int_def str_nat.simps digit_char_def)
  from a b show ?thesis by simp
qed

section \<open>The fetcher\<close>

lemma remove_existing_Inr:
  "remove_existing f p = Inr g \<Longrightarrow> \<not> os_path_exists g p \<and> (p \<noteq> [] \<longrightarrow> g p = None)"
  by (auto simp: remove_existing_def os_path_exists_def os_remove_def split: if_splits option.splits node.splits)

lemma remove_existing_file:
  "f p = Some (File b) \<Longrightarrow> p \<noteq> [] \<Longrightarrow> remove_existing f p = Inr (f(p := None))"
  by (simp add: remove_existing_def os_path_exists_def os_remove_def)

lemma remove_existing_Inl:
  "remove_existing f p = Inl e \<longleftrightarrow> e = IsADirectoryError p \<and> p \<noteq> [] \<and> f p = Some Dir"
  by (auto simp: remove_existing_def os_path_exists_def os_remove_def split: if_splits option.splits node.splits)

lemma raise_for_status_Inl:
  "raise_for_status url r = Inl e \<Longrightarrow> (\<exists>m. e = HTTPError m) \<and> 400 \<le> status_code r \<and> status_code r < 600"
  by (auto simp: raise_for_status_def split: if_splits)

lemma raise_for_status_Inr:
  "raise_for_status url r = Inr u \<longleftrightarrow> \<not> (400 \<le> status_code r \<and> status_code r < 600)"
  by (auto simp: raise_for_status_def split: if_splits)

lemma fold_mkdir:
  "fold (\<lambda>p g. g(p \<mapsto> Dir)) ps f q = (if q \<in> set ps then Some Dir else f q)"
  by (induction ps arbitrary: f) auto

lemma os_makedirs_Inl:
  "os_makedirs f d = Inl e \<Longrightarrow> is_os_error e"
  by (auto simp: os_makedirs_def split: if_splits option.splits)

lemma os_makedirs_Inr:
  "os_makedirs f d = Inr g \<Longrightarrow> g q = f q \<or> g q = Some Dir"
  by (auto simp: os_makedirs_def fold_mkdir split: if_splits option.splits)

lemma make_parent_Inl:
  "make_parent f p = Inl e \<Longrightarrow> is_os_error e"
  by (auto simp: make_parent_def dest: os_makedirs_Inl split: if_splits)

lemma make_parent_Inr:
  "make_parent f p = Inr g \<Longrightarrow> g q = f q \<or> g q = Some Dir"
  by (auto simp: make_parent_def dest: os_makedirs_Inr split: if_splits)

lemma open_wb_Inl:
  "open_wb f p = Inl e \<Longrightarrow> is_os_error e"
  by (auto simp: open_wb_def split: if_splits)

lemma open_wb_Inr:
  "open_wb f p = Inr g \<Longrightarrow> g = f(p \<mapsto> File [])"
  by (auto simp: open_wb_def split: if_splits)

lemma fs_if_print:
  "fs (if b then print l w else w) = fs w"
  "http_log (if b then print l w else w) = http_log w"
  by (simp_all add: print_def)

text \<open>The outcomes of lines 84-98, one by one.\<close>

lemma fetch_and_write_cases:
  assumes "fetch_and_write env date run version save_path verbose w = (w', r)"
  obtains
    (get_failed) m where "http_get env (download_url date run version) = Inl m"
      "r = Inl (RequestException m)" "fs w' = fs w"
  | (bad_status) resp m where "http_get env (download_url date run version) = Inr resp"
      "400 \<le> status_code resp" "status_code resp < 600"
      "r = Inl (HTTPError m)" "fs w' = fs w"
  | (mkdir_failed) resp e where "http_get env (download_url date run version) = Inr resp"
      "\<not> (400 \<le> status_code resp \<and> status_code resp < 600)"
      "r = Inl e" "is_os_error e"
      "make_parent (fs w) (fspath save_path) = Inl e" "fs w' = fs w"
  | (open_failed) resp e g where "http_get env (download_url date run version) = Inr resp"
      "\<not> (400 \<le> status_code resp \<and> status_code resp < 600)"
      "r = Inl e" "is_os_error e"
      "make_parent (fs w) (fspath save_path) = Inr g" "open_wb g (fspath save_path) = Inl e" "fs w' = g"
  | (written) resp g where "http_get env (download_url date run version) = Inr resp"
      "\<not> (400 \<le> status_code resp \<and> status_code resp < 600)"
      "fs w' = g(fspath save_path \<mapsto> File (content resp))"
      "r = Inr () \<or> (verbose \<and> (\<exists>s. save_path = PPath s) \<and> (\<exists>m. r = Inl (TypeError m)))"
proof (cases "http_get env (download_url date run version)")
  case (Inl m)
  with assms have "r = Inl (RequestException m)" "fs w' = fs w"
    by (auto simp: fetch_and_write_def Let_def fs_if_print)
  with Inl show ?thesis by (rule get_failed)
next
  case (Inr resp)
  note resp = this
  show ?thesis
  proof (cases "raise_for_status (download_url date run version) resp")
    case (Inl e)
    from raise_for_status_Inl [OF Inl] obtain m where
      e: "e = HTTPError m" and range: "400 \<le> status_code resp" "status_code resp < 600"
      by blast
    from assms resp Inl e have "r = Inl (HTTPError m)" "fs w' = fs w"
      by (auto simp: fetch_and_write_def Let_def fs_if_print)
    with resp range show ?thesis by (rule bad_status)
  next
    case (Inr u)
    then have ok: "\<not> (400 \<le> status_code resp \<and> status_code resp < 600)"
      by (simp add: raise_for_status_Inr)
    show ?thesis
    proof (cases "make_parent (fs w) (fspath save_path)")
      case (Inl e)
      with assms resp Inr have "r = Inl e" "fs w' = fs w"
        by (auto simp: fetch_and_write_def Let_def fs_if_print)
      with resp ok make_parent_Inl [OF Inl] Inl show ?thesis
        by (intro mkdir_failed [of resp e]) auto
    next
      case mp: (Inr g)
      show ?thesis
      proof (cases "open_wb g (fspath save_path)")
        case (Inl e)
        with assms resp Inr mp have "r = Inl e" "fs w' = g"
          by (auto simp: fetch_and_write_def Let_def fs_if_print)
        with resp ok open_wb_Inl [OF Inl] Inl mp show ?thesis
          by (intro open_failed [of resp e g]) auto
      next
        case ow: (Inr h)
        with assms resp Inr mp have "fs w' = h(fspath save_path \<mapsto> File (content resp))"
          "r = Inr () \<or> (verbose \<and> (\<exists>s. save_path = PPath s) \<and> (\<exists>m. r = Inl (TypeError m)))"
          by (auto simp: fetch_and_write_def Let_def fs_if_print print_def split: if_splits pathlike.splits)
        with resp ok show ?thesis
          by (intro written [of resp h]) auto
      qed
    qed
  qed
qed

lemma fetch_and_write_log:
  "fetch_and_write env date run version save_path verbose w = (w', r) \<Longrightarrow>
     http_log w' = http_log w @ [download_url date run version]"
  by (auto simp: fetch_and_write_def Let_def fs_if_print print_def split: sum.splits if_splits pathlike.splits)

lemma str_int_404: "str_int 404 = ''404''"
  by (simp add: str_int_def str_nat.simps digit_char_def)

lemma dirname_default: "os_path_dirname ''temp/imerg_temp.nc'' = ''temp''"
  by (simp add: os_path_dirname_def)

text \<open>
  Claim C8, as amended. \<open>download_imerg\<close> sends at most one GET (no retry). Unless removing
  a directory found at \<open>save_path\<close> has failed first, it raises the error of \<open>requests\<close>
  when the GET raises, and an \<open>HTTPError\<close> exactly when the status of the response is in
  400..599; every other status is accepted. When it returns normally the body of the
  response is the content of \<open>save_path\<close>, and a file is at \<open>save_path\<close> afterwards only
  if the GET answered with an accepted status, with that body as its content.
\<close>

theorem download_imerg_outcome:
  assumes run: "download_imerg env date run version save_path verbose w = (w', r)"
  shows "(http_log w' = http_log w \<or> http_log w' = http_log w @ [download_url date run version])
    \<and> (r = Inl (RequestException m) \<longleftrightarrow>
          \<not> (fspath save_path \<noteq> [] \<and> fs w (fspath save_path) = Some Dir)
          \<and> http_get env (download_url date run version) = Inl m)
    \<and> ((\<exists>msg. r = Inl (HTTPError msg)) \<longleftrightarrow>
          \<not> (fspath save_path \<noteq> [] \<and> fs w (fspath save_path) = Some Dir)
          \<and> (\<exists>resp. http_get env (download_url date run version) = Inr resp
                \<and> 400 \<le> status_code resp \<and> status_code resp < 600))
    \<and> (r = Inr () \<longrightarrow>
          (\<exists>resp. http_get env (download_url date run version) = Inr resp
              \<and> \<not> (400 \<le> status_code resp \<and> status_code resp < 600)
              \<and> fs w' (fspath save_path) = Some (File (content resp))))
    \<and> (fspath save_path \<noteq> [] \<and> fs w' (fspath save_path) = Some (File b) \<longrightarrow>
          (\<exists>resp. http_get env (download_url date run version) = Inr resp
              \<and> \<not> (400 \<le> status_code resp \<and> status_code resp < 600)
              \<and> b = content resp))"
proof (cases "remove_existing (fs w) (fspath save_path)")
  case (Inl e)
  then have e: "e = IsADirectoryError (fspath save_path)" "fspath save_path \<noteq> []"
    "fs w (fspath save_path) = Some Dir"
    by (simp_all add: remove_existing_Inl)
  from run Inl have "w' = w" "r = Inl e"
    by (simp_all add: download_imerg_def)
  with e show ?thesis by auto
next
  case (Inr g)
  then have nodir: "\<not> (fspath save_path \<noteq> [] \<and> fs w (fspath save_path) = Some Dir)"
    using remove_existing_Inl [of "fs w" "fspath save_path"] by auto
  from remove_existing_Inr [OF Inr] have gone: "fspath save_path \<noteq> [] \<longrightarrow> g (fspath save_path) = None"
    by simp
  from run Inr have fw: "fetch_and_write env date run version save_path verbose (w\<lparr>fs := g\<rparr>) = (w', r)"
    by (simp add: download_imerg_def)
  from fetch_and_write_log [OF fw] have log: "http_log w' = http_log w @ [download_url date run version]"
    by simp
  from fw show ?thesis
  proof (cases rule: fetch_and_write_cases)
    case (get_failed m')
    with nodir gone log show ?thesis by auto
  next
    case (bad_status resp m')
    with nodir gone log show ?thesis by auto
  next
    case (mkdir_failed resp e)
    then have "r \<noteq> Inr ()" "\<And>x. r \<noteq> Inl (RequestException x)" "\<And>x. r \<noteq> Inl (HTTPError x)"
      by auto
    with mkdir_failed nodir gone log show ?thesis by auto
  next
    case (open_failed resp e h)
    then have r: "r \<noteq> Inr ()" "\<And>x. r \<noteq> Inl (RequestException x)" "\<And>x. r \<noteq> Inl (HTTPError x)"
      by auto
    from open_failed make_parent_Inr [of g "fspath save_path" h "fspath save_path"]
    have "fs w' (fspath save_path) = g (fspath save_path) \<or> fs w' (fspath save_path) = Some Dir"
      by auto
    with r open_failed nodir gone log show ?thesis by auto
  next
    case (written resp h)
    then have "\<And>x. r \<noteq> Inl (RequestException x)" "\<And>x. r \<noteq> Inl (HTTPError x)"
      by auto
    with written nodir log show ?thesis by auto
  qed
qed

theorem download_imerg_outcome_witness:
  "snd (download_imerg (example_env server_ok example_dataset) example_date ''L'' 7
          (PStr ''temp/imerg_temp.nc'') True empty_world) = Inr ()
   \<and> fs (fst (download_imerg (example_env server_ok example_dataset) example_date ''L'' 7
          (PStr ''temp/imerg_temp.nc'') True empty_world)) ''temp/imerg_temp.nc'' = Some (File ''nc'')"
proof -
  let ?r = "download_imerg (example_env server_ok example_dataset) example_date ''L'' 7
          (PStr ''temp/imerg_temp.nc'') True empty_world"
  have ok: "snd ?r = Inr ()"
    by (simp add: download_imerg_def fetch_and_write_def remove_existing_def os_path_exists_def
        make_parent_def os_makedirs_def is_file_def is_dir_def open_wb_def dirname_default
        empty_world_def example_env_def server_ok_def raise_for_status_def print_def Let_def)
  have "?r = (fst ?r, snd ?r)" by simp
  note written = download_imerg_outcome [OF this, THEN conjunct2, THEN conjunct2, THEN conjunct2, THEN conjunct1]
  from written ok
  have "\<exists>resp. http_get (example_env server_ok example_dataset) (download_url example_date ''L'' 7) = Inr resp
           \<and> fs (fst ?r) (fspath (PStr ''temp/imerg_temp.nc'')) = Some (File (content resp))"
    by blast
  then have "fs (fst ?r) ''temp/imerg_temp.nc'' = Some (File ''nc'')"
    by (auto simp: example_env_def server_ok_def)
  with ok show ?thesis by simp
qed

text \<open>
  The claim as stated fails where \<open>temp\<close> is a regular file: the status is 200, yet
  \<open>open\<close> raises \<open>NotADirectoryError\<close> and nothing is written.
\<close>

theorem download_imerg_raises_after_good_status:
  "http_get (example_env server_ok example_dataset) (download_url example_date ''L'' 7)
     = Inr \<lparr>status_code = 200, reason = ''OK'', content = ''nc''\<rparr>
   \<and> raise_for_status (download_url example_date ''L'' 7) \<lparr>status_code = 200, reason = ''OK'', content = ''nc''\<rparr> = Inr ()
   \<and> snd (download_imerg (example_env server_ok example_dataset) example_date ''L'' 7
             (PPath ''temp/imerg_temp.nc'') False blocked_world)
       = Inl (NotADirectoryError ''temp/imerg_temp.nc'')
   \<and> fs (fst (download_imerg (example_env server_ok example_dataset) example_date ''L'' 7
             (PPath ''temp/imerg_temp.nc'') False blocked_world)) ''temp/imerg_temp.nc'' = None"
  by (simp add: download_imerg_def fetch_and_write_def remove_existing_def os_path_exists_def
        make_parent_def is_file_def is_dir_def open_wb_def dirname_default
        blocked_world_def empty_world_def example_env_def server_ok_def raise_for_status_def Let_def)

text \<open>
  Claim C10. \<open>download_imerg\<close> deletes a file found at \<open>save_path\<close> before it sends the
  GET: what follows runs in the world without that file. So when the call fails with the
  error of the GET or of the status check, nothing exists at \<open>save_path\<close> afterwards.
\<close>

theorem download_imerg_removes_stale_file:
  "(fspath save_path \<noteq> [] \<and> fs w (fspath save_path) = Some (File b) \<longrightarrow>
      download_imerg env date run version save_path verbose w =
        fetch_and_write env date run version save_path verbose
          (w\<lparr>fs := (fs w)(fspath save_path := None)\<rparr>))
   \<and> (download_imerg env date run version save_path verbose w = (w', Inl e)
        \<and> (e = RequestException m \<or> e = HTTPError m) \<longrightarrow>
        \<not> os_path_exists (fs w') (fspath save_path)
        \<and> (fspath save_path \<noteq> [] \<longrightarrow> fs w' (fspath save_path) = None)
        \<and> http_log w' = http_log w @ [download_url date run version])"
proof (intro conjI impI)
  assume "fspath save_path \<noteq> [] \<and> fs w (fspath save_path) = Some (File b)"
  then show "download_imerg env date run version save_path verbose w =
        fetch_and_write env date run version save_path verbose
          (w\<lparr>fs := (fs w)(fspath save_path := None)\<rparr>)"
    by (simp add: download_imerg_def remove_existing_file)
next
  assume a: "download_imerg env date run version save_path verbose w = (w', Inl e)
        \<and> (e = RequestException m \<or> e = HTTPError m)"
  then have e: "\<not> is_os_error e" by auto
  from a e obtain g where g: "remove_existing (fs w) (fspath save_path) = Inr g"
    and fw: "fetch_and_write env date run version save_path verbose (w\<lparr>fs := g\<rparr>) = (w', Inl e)"
    by (auto simp: download_imerg_def remove_existing_Inl split: sum.splits)
  from fw a have same: "fs w' = g"
    by (cases rule: fetch_and_write_cases) auto
  from remove_existing_Inr [OF g] same
  show "\<not> os_path_exists (fs w') (fspath save_path)"
    and "fspath save_path \<noteq> [] \<Longrightarrow> fs w' (fspath save_path) = None"
    by auto
  from fetch_and_write_log [OF fw]
  show "http_log w' = http_log w @ [download_url date run version]" by simp
qed

theorem download_imerg_removes_stale_file_witness:
  "fs stale_world ''temp/imerg_temp.nc'' = Some (File ''old'')
   \<and> snd (download_imerg (example_env server_404 example_dataset) example_date ''L'' 7
             (PPath ''temp/imerg_temp.nc'') False stale_world)
       = Inl (HTTPError (''404 Client Error: Not Found for url: '' @ download_url example_date ''L'' 7))
   \<and> fs (fst (download_imerg (example_env server_404 example_dataset) example_date ''L'' 7
             (PPath ''temp/imerg_temp.nc'') False stale_world)) ''temp/imerg_temp.nc'' = None"
proof -
  let ?r = "download_imerg (example_env server_404 example_dataset) example_date ''L'' 7
             (PPath ''temp/imerg_temp.nc'') False stale_world"
  have old: "fs stale_world ''temp/imerg_temp.nc'' = Some (File ''old'')"
    by (simp add: stale_world_def empty_world_def)
  have raised: "snd ?r = Inl (HTTPError (''404 Client Error: Not Found for url: '' @ download_url example_date ''L'' 7))"
    by (simp add: download_imerg_def fetch_and_write_def remove_existing_def os_path_exists_def
        os_remove_def stale_world_def empty_world_def example_env_def server_404_def
        raise_for_status_def str_int_404 Let_def)
  then have "?r = (fst ?r, Inl (HTTPError (''404 Client Error: Not Found for url: '' @ download_url example_date ''L'' 7)))"
    by (metis prod.collapse)
  with download_imerg_removes_stale_file
         [where save_path = "PPath ''temp/imerg_temp.nc''" and w = stale_world
            and env = "example_env server_404 example_dataset" and date = example_date
            and run = "''L''" and version = 7 and verbose = False and w' = "fst ?r"
            and e = "HTTPError (''404 Client Error: Not Found for url: '' @ download_url example_date ''L'' 7)"
            and m = "''404 Client Error: Not Found for url: '' @ download_url example_date ''L'' 7"]
  have "fs (fst ?r) ''temp/imerg_temp.nc'' = None"
    by simp
  with old raised show ?thesis by simp
qed

section \<open>The transformer\<close>

lemma process_imerg_Inr:
  assumes "process_imerg env path w = Inr out"
  obtains ds0 ds da da1 da2 where
    "xr_open_dataset env w path = Inr ds0"
    "transpose_ds [''lat'', ''lon'', ''time'', ''nv''] ds0 = Inr ds"
    "getitem_ds ds (var_name_of ds) = Inr da"
    "fix_time env ds da = Inr da1"
    "rename_da [(''lon'', ''x''), (''lat'', ''y'')] da1 = Inr da2"
    "out = squeeze_drop da2"
  using assms by (auto simp: process_imerg_def split: sum.splits)

lemma transpose_ds_Inr:
  assumes "transpose_ds order ds0 = Inr ds"
  shows "ds_variables ds = map (\<lambda>(n, v). (n, transpose_variable order v)) (ds_variables ds0)"
    and "ds_coord_names ds = ds_coord_names ds0"
    and "set order = set (ds_dims ds0)"
  using assms by (auto simp: transpose_ds_def split: if_splits)

lemma map_fst_transposed:
  "map fst (map (\<lambda>(n, v). (n, f v)) xs) = map fst xs"
  by (induction xs) auto

lemma map_of_transposed:
  "map_of (map (\<lambda>(n, v). (n, f v)) xs) k = map_option f (map_of xs k)"
  by (induction xs) auto

lemma transpose_ds_contains:
  assumes "transpose_ds order ds0 = Inr ds"
  shows "contains ds name = contains ds0 name"
proof -
  have "map fst (ds_variables ds) = map fst (ds_variables ds0)"
    unfolding transpose_ds_Inr(1) [OF assms] by (rule map_fst_transposed)
  then show ?thesis
    unfolding contains_def by (rule arg_cong)
qed

lemma transpose_ds_var_name:
  "transpose_ds order ds0 = Inr ds \<Longrightarrow> var_name_of ds = var_name_of ds0"
  by (simp add: var_name_of_def transpose_ds_contains)

lemma transposed_names:
  "set (vdims (transpose_variable order v)) \<subseteq> set (vdims v) \<inter> set order"
  by (auto simp: transpose_variable_def vdims_def)

lemma ds_sizes_names:
  "d \<in> fst ` set (ds_sizes ds) \<longleftrightarrow> d \<in> set (ds_dims ds)"
  by (simp add: ds_dims_def)

lemma transposed_ds_dims:
  assumes "transpose_ds order ds0 = Inr ds"
  shows "set (ds_dims ds) \<subseteq> set order"
proof
  fix d assume "d \<in> set (ds_dims ds)"
  then obtain n v s where nv: "(n, v) \<in> set (ds_variables ds0)"
    and d: "(d, s) \<in> set (vshape (transpose_variable order v))"
    using transpose_ds_Inr(1) [OF assms]
    by (auto simp: ds_dims_def ds_sizes_def)
  then have "d \<in> set (vdims (transpose_variable order v))"
    by (force simp: vdims_def)
  with transposed_names show "d \<in> set order" by blast
qed

lemma virtual_variable_Inr:
  "virtual_variable sizes name = Inr v \<Longrightarrow> name \<in> fst ` set sizes"
  by (auto simp: virtual_variable_def split: option.splits dest: map_of_SomeD intro: rev_image_eqI)

lemma getitem_ds_Inr:
  assumes "getitem_ds ds name = Inr da" and "name \<notin> set (ds_dims ds)"
  shows "\<exists>v. map_of (ds_variables ds) name = Some v \<and> da_variable da = v \<and> da_name da = name
     \<and> da_coords da = filter (\<lambda>(k, c). k \<in> set (ds_coord_names ds) \<and> set (vdims c) \<subseteq> set (vdims v)) (ds_variables ds)"
proof (cases "map_of (ds_variables ds) name")
  case None
  with assms(1) have "virtual_variable (ds_sizes ds) name = Inr (da_variable da)"
    by (auto simp: getitem_ds_def split: sum.splits)
  from virtual_variable_Inr [OF this] assms(2) show ?thesis
    by (simp add: ds_sizes_names)
next
  case (Some v)
  with assms(1) show ?thesis
    by (auto simp: getitem_ds_def)
qed

lemma setitem_coord_Inr:
  "setitem_coord da name v = Inr da' \<Longrightarrow>
     da_variable da' = da_variable da \<and> da_name da' = da_name da
     \<and> da_coords da' = AList.update name v (da_coords da)"
  by (auto simp: setitem_coord_def split: if_splits)

lemma normalise_time_Inr:
  assumes "normalise_time env da = Inr da'"
  obtains tv ts stamps where "getitem_coord da ''time'' = Inr tv" "iter_values tv = Inr ts"
    "map_exn (reparse_time env) ts = Inr stamps"
    "setitem_coord da ''time'' (to_datetime stamps) = Inr da'"
  using assms by (auto simp: normalise_time_def split: sum.splits)

lemma fix_time_cases:
  assumes "fix_time env ds da = Inr da'"
  obtains (kept) tm where "getitem_ds ds ''time'' = Inr tm" "vdtype (da_variable tm) = M8_ns" "da' = da"
  | (rewritten) tm where "getitem_ds ds ''time'' = Inr tm" "vdtype (da_variable tm) \<noteq> M8_ns"
      "normalise_time env da = Inr da'"
proof (cases "getitem_ds ds ''time''")
  case (Inl e)
  with assms show ?thesis by (simp add: fix_time_def)
next
  case (Inr tm)
  show ?thesis
  proof (cases "vdtype (da_variable tm) = M8_ns")
    case True
    with assms Inr have "da' = da" by (simp add: fix_time_def)
    with Inr True show ?thesis by (rule kept)
  next
    case False
    with assms Inr have "normalise_time env da = Inr da'" by (simp add: fix_time_def)
    with Inr False show ?thesis by (rule rewritten)
  qed
qed

lemma fix_time_frame:
  assumes "fix_time env ds da = Inr da'"
  shows "da_variable da' = da_variable da \<and> da_name da' = da_name da"
  using assms
proof (cases rule: fix_time_cases)
  case (kept tm)
  then show ?thesis by simp
next
  case (rewritten tm)
  from rewritten(3) obtain stamps where "setitem_coord da ''time'' (to_datetime stamps) = Inr da'"
    by (rule normalise_time_Inr)
  from setitem_coord_Inr [OF this] show ?thesis by simp
qed

lemma rename_da_Inr:
  assumes "rename_da name_dict da = Inr da'"
  shows "da_variable da' = rename_variable name_dict (da_variable da)"
    and "da_name da' = da_name da"
    and "da_coords da' = map (\<lambda>(k, c). (rename_name name_dict k, rename_variable name_dict c)) (da_coords da)"
  using assms by (auto simp: rename_da_def split: if_splits)

text \<open>What the stages do to the selected variable, put together.\<close>

lemma variable_through_stages:
  assumes tr: "transpose_ds [''lat'', ''lon'', ''time'', ''nv''] ds0 = Inr ds"
    and gi: "getitem_ds ds (var_name_of ds) = Inr da"
    and ft: "fix_time env ds da = Inr da1"
    and rn: "rename_da [(''lon'', ''x''), (''lat'', ''y'')] da1 = Inr da2"
  obtains v0 where
    "map_of (ds_variables ds0) (var_name_of ds0) = Some v0"
    "da_name da2 = var_name_of ds0"
    "da_variable da2 = rename_variable [(''lon'', ''x''), (''lat'', ''y'')]
                         (transpose_variable [''lat'', ''lon'', ''time'', ''nv''] v0)"
proof -
  have name: "var_name_of ds = var_name_of ds0"
    using tr by (rule transpose_ds_var_name)
  have "var_name_of ds0 \<notin> set [''lat'', ''lon'', ''time'', ''nv'']"
    by (simp add: var_name_of_def)
  with transposed_ds_dims [OF tr] have "var_name_of ds \<notin> set (ds_dims ds)"
    unfolding name by blast
  from getitem_ds_Inr [OF gi this] obtain v where
    v: "map_of (ds_variables ds) (var_name_of ds) = Some v" "da_variable da = v" "da_name da = var_name_of ds"
    by blast
  from v(1) have "map_option (transpose_variable [''lat'', ''lon'', ''time'', ''nv''])
      (map_of (ds_variables ds0) (var_name_of ds0)) = Some v"
    unfolding name transpose_ds_Inr(1) [OF tr] map_of_transposed .
  then obtain v0 where v0: "map_of (ds_variables ds0) (var_name_of ds0) = Some v0"
    and vv: "v = transpose_variable [''lat'', ''lon'', ''time'', ''nv''] v0"
    by (cases "map_of (ds_variables ds0) (var_name_of ds0)") auto
  from fix_time_frame [OF ft] v have da1: "da_variable da1 = v" "da_name da1 = var_name_of ds0"
    by (simp_all add: name)
  from rename_da_Inr [OF rn] da1 vv
  have "da_variable da2 = rename_variable [(''lon'', ''x''), (''lat'', ''y'')]
                         (transpose_variable [''lat'', ''lon'', ''time'', ''nv''] v0)"
    and "da_name da2 = var_name_of ds0"
    by simp_all
  with v0 show ?thesis
    by (intro that [of v0])
qed

lemma process_imerg_variable:
  assumes "process_imerg env path w = Inr out"
  obtains ds0 v0 da2 where
    "xr_open_dataset env w path = Inr ds0"
    "map_of (ds_variables ds0) (var_name_of ds0) = Some v0"
    "da_name out = var_name_of ds0"
    "da_variable da2 = rename_variable [(''lon'', ''x''), (''lat'', ''y'')]
                         (transpose_variable [''lat'', ''lon'', ''time'', ''nv''] v0)"
    "out = squeeze_drop da2"
proof -
  from assms obtain ds0 ds da da1 da2 where
    op: "xr_open_dataset env w path = Inr ds0"
    and tr: "transpose_ds [''lat'', ''lon'', ''time'', ''nv''] ds0 = Inr ds"
    and gi: "getitem_ds ds (var_name_of ds) = Inr da"
    and ft: "fix_time env ds da = Inr da1"
    and rn: "rename_da [(''lon'', ''x''), (''lat'', ''y'')] da1 = Inr da2"
    and out: "out = squeeze_drop da2"
    by (rule process_imerg_Inr)
  from tr gi ft rn obtain v0 where
    v0: "map_of (ds_variables ds0) (var_name_of ds0) = Some v0"
    and nm: "da_name da2 = var_name_of ds0"
    and var: "da_variable da2 = rename_variable [(''lon'', ''x''), (''lat'', ''y'')]
                         (transpose_variable [''lat'', ''lon'', ''time'', ''nv''] v0)"
    by (rule variable_through_stages)
  from out have "da_name out = da_name da2"
    by (simp add: squeeze_drop_def Let_def)
  with nm have "da_name out = var_name_of ds0" by simp
  with op v0 var out show ?thesis
    by (intro that [of ds0 v0 da2])
qed

lemma squeeze_drop_shape:
  "vshape (da_variable (squeeze_drop da)) =
     filter (\<lambda>(d, n). d \<notin> set (squeeze_dims da)) (vshape (da_variable da))"
  by (simp add: squeeze_drop_def isel_variable_def Let_def)

lemma squeeze_drop_payload:
  "vattrs (da_variable (squeeze_drop da)) = vattrs (da_variable da)"
  "vvalues (da_variable (squeeze_drop da)) = vvalues (da_variable da)"
  "vdtype (da_variable (squeeze_drop da)) = vdtype (da_variable da)"
  "da_name (squeeze_drop da) = da_name da"
  by (simp_all add: squeeze_drop_def isel_variable_def Let_def)

lemma squeeze_dims_iff:
  "d \<in> set (squeeze_dims da) \<longleftrightarrow> (d, 1) \<in> set (vshape (da_variable da))"
  by (force simp: squeeze_dims_def)

lemma squeeze_drop_no_singleton:
  "(d, n) \<in> set (vshape (da_variable (squeeze_drop da))) \<Longrightarrow> n \<noteq> 1 \<and> (d, n) \<in> set (vshape (da_variable da))"
  by (auto simp: squeeze_drop_shape squeeze_dims_iff)

lemma squeeze_drop_coord_names:
  "fst ` set (da_coords (squeeze_drop da)) \<subseteq> fst ` set (da_coords da)"
  by (auto simp: squeeze_drop_def Let_def split: if_splits) force+

lemma transposed_shape:
  "(d, n) \<in> set (vshape (transpose_variable order v)) \<longleftrightarrow> d \<in> set order \<and> (d, n) \<in> set (vshape v)"
  by (auto simp: transpose_variable_def)

lemma rename_lon_lat:
  "rename_name [(''lon'', ''x''), (''lat'', ''y'')] k =
     (if k = ''lon'' then ''x'' else if k = ''lat'' then ''y'' else k)"
  by (simp add: rename_name_def)

lemma renamed_shape:
  "(d, n) \<in> set (vshape (rename_variable name_dict v)) \<longleftrightarrow>
     (\<exists>d0. (d0, n) \<in> set (vshape v) \<and> d = rename_name name_dict d0)"
  by (force simp: rename_variable_def)

lemma payload_kept:
  "vattrs (rename_variable name_dict (transpose_variable order v)) = vattrs v"
  "vvalues (rename_variable name_dict (transpose_variable order v)) = vvalues v"
  "vdtype (rename_variable name_dict (transpose_variable order v)) = vdtype v"
  by (simp_all add: rename_variable_def transpose_variable_def)

text \<open>The shape of the array before the squeeze, entry by entry.\<close>

lemma rename_canonical:
  "rename_name [(''lon'', ''x''), (''lat'', ''y'')] ''lat'' = ''y''"
  "rename_name [(''lon'', ''x''), (''lat'', ''y'')] ''lon'' = ''x''"
  "rename_name [(''lon'', ''x''), (''lat'', ''y'')] ''time'' = ''time''"
  "rename_name [(''lon'', ''x''), (''lat'', ''y'')] ''nv'' = ''nv''"
  by (simp_all add: rename_name_def)

lemma shape_of_renamed_transposed:
  "(d, n) \<in> set (vshape (rename_variable name_dict (transpose_variable [a, b, c, e] v))) \<longleftrightarrow>
     (d = rename_name name_dict a \<and> (a, n) \<in> set (vshape v))
     \<or> (d = rename_name name_dict b \<and> (b, n) \<in> set (vshape v))
     \<or> (d = rename_name name_dict c \<and> (c, n) \<in> set (vshape v))
     \<or> (d = rename_name name_dict e \<and> (e, n) \<in> set (vshape v))"
  by (auto simp: renamed_shape transposed_shape)

lemma canonical_shape:
  "(d, n) \<in> set (vshape (rename_variable [(''lon'', ''x''), (''lat'', ''y'')]
                     (transpose_variable [''lat'', ''lon'', ''time'', ''nv''] v))) \<longleftrightarrow>
     (d = ''y'' \<and> (''lat'', n) \<in> set (vshape v)) \<or> (d = ''x'' \<and> (''lon'', n) \<in> set (vshape v))
     \<or> (d = ''time'' \<and> (''time'', n) \<in> set (vshape v)) \<or> (d = ''nv'' \<and> (''nv'', n) \<in> set (vshape v))"
  using shape_of_renamed_transposed
          [of d n "[(''lon'', ''x''), (''lat'', ''y'')]" "''lat''" "''lon''" "''time''" "''nv''" v]
  by (simp only: rename_canonical)

lemma squeeze_kept:
  "(d, n) \<in> set (vshape (da_variable (squeeze_drop da))) \<longleftrightarrow>
     (d, n) \<in> set (vshape (da_variable da)) \<and> (d, 1) \<notin> set (vshape (da_variable da))"
  unfolding squeeze_drop_shape by (auto simp: squeeze_dims_iff)

lemma one_of_four:
  "(A \<and> P) \<or> (B \<and> Q) \<or> (C \<and> R) \<or> (D \<and> S) \<Longrightarrow> A \<or> B \<or> C \<or> D"
  by blast

lemma squeezed_canonical:
  assumes "da_variable da2 = rename_variable [(''lon'', ''x''), (''lat'', ''y'')]
                         (transpose_variable [''lat'', ''lon'', ''time'', ''nv''] v0)"
  shows "(''x'', n) \<in> set (vshape (da_variable da2)) \<longleftrightarrow> (''lon'', n) \<in> set (vshape v0)"
    and "(''y'', n) \<in> set (vshape (da_variable da2)) \<longleftrightarrow> (''lat'', n) \<in> set (vshape v0)"
    and "(''time'', n) \<in> set (vshape (da_variable da2)) \<longleftrightarrow> (''time'', n) \<in> set (vshape v0)"
  unfolding assms canonical_shape by simp_all

lemma squeezed_names:
  assumes "da_variable da2 = rename_variable [(''lon'', ''x''), (''lat'', ''y'')]
                         (transpose_variable [''lat'', ''lon'', ''time'', ''nv''] v0)"
    and "(d, n) \<in> set (vshape (da_variable da2))"
  shows "d = ''y'' \<or> d = ''x'' \<or> d = ''time'' \<or> d = ''nv''"
  using assms(2) unfolding assms(1) canonical_shape by (rule one_of_four)

text \<open>A dimension of the input that is renamed and not of length 1 is a dimension of the output.\<close>

lemma renamed_dim_kept:
  assumes iff: "\<And>m. (x, m) \<in> set (vshape (da_variable da)) \<longleftrightarrow> (lon, m) \<in> set (vshape v)"
    and "distinct (vdims v)" and "n \<noteq> 1" and "(lon, n) \<in> set (vshape v)"
  shows "(x, n) \<in> set (vshape (da_variable (squeeze_drop da)))"
proof -
  from assms(2-4) have "(lon, 1) \<notin> set (vshape v)"
    unfolding vdims_def by (metis eq_key_imp_eq_value)
  with assms(4) iff show ?thesis
    unfolding squeeze_kept by simp
qed

lemma renamed_dim_origin:
  assumes iff: "\<And>m. (x, m) \<in> set (vshape (da_variable da)) \<longleftrightarrow> (lon, m) \<in> set (vshape v)"
    and "(x, n) \<in> set (vshape (da_variable (squeeze_drop da)))"
  shows "(lon, n) \<in> set (vshape v)"
  using assms unfolding squeeze_kept by simp

lemma contains_map_of:
  "map_of (ds_variables ds) name = Some v \<Longrightarrow> contains ds name"
  unfolding contains_def by (metis map_of_SomeD fst_conv image_eqI set_map)

lemma squeeze_drop_coord:
  assumes "(k, c) \<in> set (da_coords (squeeze_drop da))"
  obtains c2 where "(k, c2) \<in> set (da_coords da)"
    "(set (vdims c2) \<inter> set (squeeze_dims da) = {} \<and> c = c2)
     \<or> (vshape (isel_variable (squeeze_dims da) c2) \<noteq> [] \<and> c = isel_variable (squeeze_dims da) c2)"
  using assms by (auto simp: squeeze_drop_def Let_def split: if_splits)

lemma isel_variable_dims:
  "d \<in> set dims \<Longrightarrow> d \<notin> set (vdims (isel_variable dims c))"
  by (auto simp: isel_variable_def vdims_def)

lemma squeeze_drop_coord_dims:
  assumes "(k, c) \<in> set (da_coords (squeeze_drop da))" and "d \<in> set (squeeze_dims da)"
  shows "d \<notin> set (vdims c)"
  using assms(1)
proof (cases rule: squeeze_drop_coord)
  case (1 c2)
  with assms(2) isel_variable_dims [OF assms(2), of c2] show ?thesis by auto
qed

lemma vdims_single:
  "vdims c = [t] \<longleftrightarrow> (\<exists>m. vshape c = [(t, m)])"
  by (cases "vshape c") (auto simp: vdims_def)

text \<open>A coordinate that lies along a squeezed dimension only is dropped.\<close>

lemma squeeze_drop_along:
  assumes "(k, c) \<in> set (da_coords (squeeze_drop da))"
    and "\<And>c2. (k, c2) \<in> set (da_coords da) \<Longrightarrow> vdims c2 = [d]"
    and "d \<in> set (squeeze_dims da)"
  shows False
  using assms(1)
proof (cases rule: squeeze_drop_coord)
  case (1 c2)
  from assms(2) [OF 1(1)] obtain m where sh: "vshape c2 = [(d, m)]"
    unfolding vdims_single by blast
  then have "vdims c2 = [d]" "vshape (isel_variable (squeeze_dims da) c2) = []"
    using assms(3) by (simp_all add: vdims_def isel_variable_def)
  with 1(2) assms(3) show False by auto
qed

lemma alist_update_entries:
  "(k, c) \<in> set (AList.update k' v al) \<Longrightarrow> (k, c) = (k', v) \<or> (k, c) \<in> set al"
  by (induction al) (auto split: if_splits)

lemma transposed_time:
  "vdims v = [''time''] \<Longrightarrow> vdims (transpose_variable [''lat'', ''lon'', ''time'', ''nv''] v) = [''time'']"
  unfolding vdims_single by (auto simp: transpose_variable_def)

lemma renamed_time:
  "vdims v = [''time''] \<Longrightarrow> vdims (rename_variable [(''lon'', ''x''), (''lat'', ''y'')] v) = [''time'']"
  unfolding vdims_single by (auto simp: rename_variable_def rename_name_def)

lemma rename_to_time:
  "rename_name [(''lon'', ''x''), (''lat'', ''y'')] k = ''time'' \<Longrightarrow> k = ''time''"
  by (simp add: rename_lon_lat split: if_splits)

lemma to_datetime_dims: "vdims (to_datetime stamps) = [''time'']"
  by (simp add: to_datetime_def vdims_def)

text \<open>Every coordinate called \<open>time\<close> lies along \<open>time\<close>, at each stage before the squeeze.\<close>

lemma time_coords_through_stages:
  assumes tr: "transpose_ds [''lat'', ''lon'', ''time'', ''nv''] ds0 = Inr ds"
    and gi: "getitem_ds ds name = Inr da"
    and ft: "fix_time env ds da = Inr da1"
    and rn: "rename_da [(''lon'', ''x''), (''lat'', ''y'')] da1 = Inr da2"
    and wf: "\<And>tv. (''time'', tv) \<in> set (ds_variables ds0) \<Longrightarrow> vdims tv = [''time'']"
    and c: "(''time'', c) \<in> set (da_coords da2)"
  shows "vdims c = [''time'']"
proof -
  have in_ds: "vdims c = [''time'']" if "(''time'', c) \<in> set (ds_variables ds)" for c
  proof -
    from that obtain c0 where "(''time'', c0) \<in> set (ds_variables ds0)"
      and c: "c = transpose_variable [''lat'', ''lon'', ''time'', ''nv''] c0"
      unfolding transpose_ds_Inr(1) [OF tr] by auto
    from wf [OF this(1)] show ?thesis unfolding c by (rule transposed_time)
  qed
  have in_da: "vdims c = [''time'']" if "(''time'', c) \<in> set (da_coords da)" for c
  proof -
    from gi have "set (da_coords da) \<subseteq> set (ds_variables ds)"
      by (auto simp: getitem_ds_def split: sum.splits)
    with that in_ds show ?thesis by blast
  qed
  have in_da1: "vdims c = [''time'']" if "(''time'', c) \<in> set (da_coords da1)" for c
    using ft
  proof (cases rule: fix_time_cases)
    case (kept tm)
    with that in_da show ?thesis by simp
  next
    case (rewritten tm)
    from rewritten(3) obtain stamps where "setitem_coord da ''time'' (to_datetime stamps) = Inr da1"
      by (rule normalise_time_Inr)
    from setitem_coord_Inr [OF this] that
    have "(''time'', c) \<in> set (AList.update ''time'' (to_datetime stamps) (da_coords da))"
      by simp
    from alist_update_entries [OF this] in_da to_datetime_dims show ?thesis
      by blast
  qed
  from c obtain k1 c1 where k1: "(k1, c1) \<in> set (da_coords da1)"
    and r: "rename_name [(''lon'', ''x''), (''lat'', ''y'')] k1 = ''time''"
    and cc: "c = rename_variable [(''lon'', ''x''), (''lat'', ''y'')] c1"
    unfolding rename_da_Inr(3) [OF rn] by auto
  from r have "k1 = ''time''" by (rule rename_to_time)
  with k1 in_da1 have "vdims c1 = [''time'']" by simp
  then show ?thesis unfolding cc by (rule renamed_time)
qed

lemma run_example:
  "process_imerg (example_env server_ok example_dataset) ''temp/imerg_temp.nc'' fetched_world = Inr example_array"
  by code_simp

lemma run_example_v6:
  "process_imerg (example_env server_ok example_dataset_v6) ''temp/imerg_temp.nc'' fetched_world = Inr example_array_v6"
  by code_simp

lemma open_example:
  "xr_open_dataset (example_env server_ok ds) fetched_world ''temp/imerg_temp.nc'' = Inr ds"
  by (simp add: xr_open_dataset_def fetched_world_def empty_world_def example_env_def)

lemma example_selected:
  "map_of (ds_variables example_dataset) (var_name_of example_dataset) =
     Some \<lparr>vshape = [(''time'', 1), (''lon'', 4), (''lat'', 3)], vdtype = Other_dtype,
           vattrs = [(''units'', ''mm/day'')], vvalues = Buffer 1\<rparr>"
  by (simp add: example_dataset_def var_name_of_def contains_def)

lemma example_time_variables:
  "\<forall>tv. (''time'', tv) \<in> set (ds_variables example_dataset) \<longrightarrow> vdims tv = [''time'']"
  by (simp add: example_dataset_def vdims_def)

lemma run_example_column:
  "process_imerg (example_env server_ok example_dataset_column) ''temp/imerg_temp.nc'' fetched_world
     = Inr example_array_column"
  by code_simp

lemma today_example: "today (example_env server ds) = \<lparr>year = 2024, month = 6, day = 3\<rparr>"
  by (simp add: example_env_def)

lemma today_day: "days_from_civil \<lparr>year = 2024, month = 6, day = 3\<rparr> = 19877"
  by code_simp

lemma today_stamp: "timestamp_of_date \<lparr>year = 2024, month = 6, day = 3\<rparr> = Inr (19877 * ns_per_day)"
  by code_simp

lemma example_blob: "output_blob_of example_date = ''imerg/v7/imerg-daily-late-2024-06-01.tif''"
  by code_simp

lemma example_failed_line: "str_timestamp example_date = ''2024-06-01 00:00:00''"
  by code_simp

lemma second_day_404:
  "http_get (example_env server_second_day example_dataset) (download_url example_date ''L'' 7)
     = Inr \<lparr>status_code = 404, reason = ''Not Found'', content = ''<html>''\<rparr>"
  by code_simp

lemma example_days:
  "example_date = 19875 * ns_per_day" "example_date + ns_per_day = 19876 * ns_per_day"
  by (simp_all add: example_date_def ns_per_day_def)

lemma listing_empty: "list_blobs (example_env server ds) empty_world ''imerg/v7'' = Inr []"
  by (simp add: list_blobs_def example_env_def empty_world_def)

lemma listing_skip:
  "list_blobs (example_env server ds) skip_world ''imerg/v7'' = Inr [''imerg/v7/imerg-daily-late-2024-06-01.tif'']"
  by (simp add: list_blobs_def example_env_def skip_world_def empty_world_def)




lemma example_midnights:
  "midnight \<lparr>year = 2020, month = 2, day = 29\<rparr> = 1582934400000000000"
  "midnight \<lparr>year = 2020, month = 3, day = 1\<rparr> = 1583020800000000000"
  by code_simp+

section \<open>What the transformer returns\<close>

text \<open>
  Claim C4, as amended. For every dataset that \<open>process_imerg\<close> accepts, the returned
  array has no dimension of length 1 and its dimensions are among \<open>y\<close>, \<open>x\<close>, \<open>time\<close>
  and \<open>nv\<close>; a dimension \<open>x\<close> of the result is the input's \<open>lon\<close> and a dimension
  \<open>y\<close> its \<open>lat\<close>, with their lengths. The result has the dimension \<open>x\<close> (\<open>y\<close>)
  when the variable's \<open>lon\<close> (\<open>lat\<close>) has a length other than 1, the dimension names of
  the variable being distinct: \<open>squeeze\<close> removes a spatial dimension of length 1 like
  any other.
\<close>

theorem process_imerg_dims:
  assumes "process_imerg env path w = Inr out"
  shows "(\<forall>(d, n) \<in> set (vshape (da_variable out)).
            n \<noteq> 1 \<and> (d = ''y'' \<or> d = ''x'' \<or> d = ''time'' \<or> d = ''nv''))
    \<and> (\<exists>ds0 v0. xr_open_dataset env w path = Inr ds0
          \<and> map_of (ds_variables ds0) (var_name_of ds0) = Some v0
          \<and> (\<forall>n. (''x'', n) \<in> set (vshape (da_variable out)) \<longrightarrow> (''lon'', n) \<in> set (vshape v0))
          \<and> (\<forall>n. (''y'', n) \<in> set (vshape (da_variable out)) \<longrightarrow> (''lat'', n) \<in> set (vshape v0))
          \<and> (distinct (vdims v0) \<longrightarrow>
                (\<forall>n. n \<noteq> 1 \<and> (''lon'', n) \<in> set (vshape v0) \<longrightarrow> (''x'', n) \<in> set (vshape (da_variable out)))
              \<and> (\<forall>n. n \<noteq> 1 \<and> (''lat'', n) \<in> set (vshape v0) \<longrightarrow> (''y'', n) \<in> set (vshape (da_variable out)))))"
proof -
  from assms obtain ds0 v0 da2 where
    op: "xr_open_dataset env w path = Inr ds0"
    and v0: "map_of (ds_variables ds0) (var_name_of ds0) = Some v0"
    and da2: "da_variable da2 = rename_variable [(''lon'', ''x''), (''lat'', ''y'')]
                         (transpose_variable [''lat'', ''lon'', ''time'', ''nv''] v0)"
    and out: "out = squeeze_drop da2"
    by (rule process_imerg_variable)
  note sq = squeezed_canonical [OF da2]
  have first: "\<forall>(d, n) \<in> set (vshape (da_variable out)).
            n \<noteq> 1 \<and> (d = ''y'' \<or> d = ''x'' \<or> d = ''time'' \<or> d = ''nv'')"
  proof (clarify, intro conjI)
    fix d n assume "(d, n) \<in> set (vshape (da_variable out))"
    then have m: "(d, n) \<in> set (vshape (da_variable da2))" "(d, 1) \<notin> set (vshape (da_variable da2))"
      unfolding out squeeze_kept by simp_all
    then show "n \<noteq> 1" by (cases "n = 1") simp_all
    from da2 m(1) show "d = ''y'' \<or> d = ''x'' \<or> d = ''time'' \<or> d = ''nv''"
      by (rule squeezed_names)
  qed
  have rest: "(\<forall>n. (''x'', n) \<in> set (vshape (da_variable out)) \<longrightarrow> (''lon'', n) \<in> set (vshape v0))
          \<and> (\<forall>n. (''y'', n) \<in> set (vshape (da_variable out)) \<longrightarrow> (''lat'', n) \<in> set (vshape v0))
          \<and> (distinct (vdims v0) \<longrightarrow>
                (\<forall>n. n \<noteq> 1 \<and> (''lon'', n) \<in> set (vshape v0) \<longrightarrow> (''x'', n) \<in> set (vshape (da_variable out)))
              \<and> (\<forall>n. n \<noteq> 1 \<and> (''lat'', n) \<in> set (vshape v0) \<longrightarrow> (''y'', n) \<in> set (vshape (da_variable out))))"
    unfolding out
  proof (intro conjI allI impI; (elim conjE)?)
    fix n assume "(''x'', n) \<in> set (vshape (da_variable (squeeze_drop da2)))"
    with sq(1) show "(''lon'', n) \<in> set (vshape v0)" by (rule renamed_dim_origin)
  next
    fix n assume "(''y'', n) \<in> set (vshape (da_variable (squeeze_drop da2)))"
    with sq(2) show "(''lat'', n) \<in> set (vshape v0)" by (rule renamed_dim_origin)
  next
    fix n assume "distinct (vdims v0)" "n \<noteq> 1" "(''lon'', n) \<in> set (vshape v0)"
    with sq(1) show "(''x'', n) \<in> set (vshape (da_variable (squeeze_drop da2)))"
      by (rule renamed_dim_kept)
  next
    fix n assume "distinct (vdims v0)" "n \<noteq> 1" "(''lat'', n) \<in> set (vshape v0)"
    with sq(2) show "(''y'', n) \<in> set (vshape (da_variable (squeeze_drop da2)))"
      by (rule renamed_dim_kept)
  qed
  show ?thesis
    by (rule conjI [OF first]) (rule exI [of _ ds0], rule exI [of _ v0], intro conjI op v0 rest [THEN conjunct1]
         rest [THEN conjunct2, THEN conjunct1] rest [THEN conjunct2, THEN conjunct2])
qed

theorem process_imerg_dims_witness:
  "process_imerg (example_env server_ok example_dataset) ''temp/imerg_temp.nc'' fetched_world = Inr example_array
   \<and> list_all (\<lambda>(d, n). n \<noteq> 1 \<and> (d = ''y'' \<or> d = ''x'' \<or> d = ''time'' \<or> d = ''nv''))
        (vshape (da_variable example_array))
   \<and> vshape (da_variable example_array) = [(''y'', 3), (''x'', 4)]"
proof -
  have "\<forall>(d, n) \<in> set (vshape (da_variable example_array)).
          n \<noteq> 1 \<and> (d = ''y'' \<or> d = ''x'' \<or> d = ''time'' \<or> d = ''nv'')"
    using process_imerg_dims [OF run_example] by (rule conjunct1)
  then have "list_all (\<lambda>(d, n). n \<noteq> 1 \<and> (d = ''y'' \<or> d = ''x'' \<or> d = ''time'' \<or> d = ''nv''))
        (vshape (da_variable example_array))"
    unfolding list_all_iff .
  moreover have "vshape (da_variable example_array) = [(''y'', 3), (''x'', 4)]"
    by (simp add: example_array_def)
  ultimately show ?thesis
    using run_example by (intro conjI)
qed

text \<open>
  The claim as stated fails on a grid of one column: \<open>lon\<close> has length 1, so it is
  squeezed away with its coordinate, and the returned array has the dimension \<open>y\<close>
  only and no \<open>x\<close>.
\<close>

theorem process_imerg_squeezes_single_column:
  "process_imerg (example_env server_ok example_dataset_column) ''temp/imerg_temp.nc'' fetched_world
     = Inr example_array_column
   \<and> map_of (ds_variables example_dataset_column) ''precipitation''
       = Some \<lparr>vshape = [(''time'', 1), (''lon'', 1), (''lat'', 3)], vdtype = Other_dtype,
               vattrs = [(''units'', ''mm/day'')], vvalues = Buffer 1\<rparr>
   \<and> vdims (da_variable example_array_column) = [''y'']
   \<and> ''x'' \<notin> set (vdims (da_variable example_array_column))
   \<and> map fst (da_coords example_array_column) = [''y'']"
proof -
  have "map_of (ds_variables example_dataset_column) ''precipitation''
       = Some \<lparr>vshape = [(''time'', 1), (''lon'', 1), (''lat'', 3)], vdtype = Other_dtype,
               vattrs = [(''units'', ''mm/day'')], vvalues = Buffer 1\<rparr>"
    by (simp add: example_dataset_column_def)
  moreover have "vdims (da_variable example_array_column) = [''y'']"
    "''x'' \<notin> set (vdims (da_variable example_array_column))"
    "map fst (da_coords example_array_column) = [''y'']"
    by (simp_all add: example_array_column_def vdims_def)
  ultimately show ?thesis
    using run_example_column by (intro conjI)
qed

text \<open>
  Claim C6. The array returned is the variable \<open>precipitationCal\<close> of the dataset
  whenever the dataset has it, also when it has \<open>precipitation\<close> too; it is
  \<open>precipitation\<close> when the dataset has that one and not \<open>precipitationCal\<close>. Name,
  values and attributes are those of the variable selected.
\<close>

theorem process_imerg_selects_variable:
  assumes "process_imerg env path w = Inr out"
  shows "\<exists>ds0 v0. xr_open_dataset env w path = Inr ds0
      \<and> map_of (ds_variables ds0) (da_name out) = Some v0
      \<and> vvalues (da_variable out) = vvalues v0 \<and> vattrs (da_variable out) = vattrs v0
      \<and> (contains ds0 ''precipitationCal'' \<longrightarrow> da_name out = ''precipitationCal'')
      \<and> (\<not> contains ds0 ''precipitationCal'' \<longrightarrow>
            da_name out = ''precipitation'' \<and> contains ds0 ''precipitation'')"
proof -
  from assms obtain ds0 v0 da2 where
    op: "xr_open_dataset env w path = Inr ds0"
    and v0: "map_of (ds_variables ds0) (var_name_of ds0) = Some v0"
    and name: "da_name out = var_name_of ds0"
    and da2: "da_variable da2 = rename_variable [(''lon'', ''x''), (''lat'', ''y'')]
                         (transpose_variable [''lat'', ''lon'', ''time'', ''nv''] v0)"
    and out: "out = squeeze_drop da2"
    by (rule process_imerg_variable)
  have payload: "vvalues (da_variable out) = vvalues v0" "vattrs (da_variable out) = vattrs v0"
    unfolding out squeeze_drop_payload da2 payload_kept by (rule refl)+
  have cal: "contains ds0 ''precipitationCal'' \<longrightarrow> da_name out = ''precipitationCal''"
    unfolding name var_name_of_def by simp
  have other: "\<not> contains ds0 ''precipitationCal'' \<longrightarrow>
            da_name out = ''precipitation'' \<and> contains ds0 ''precipitation''"
  proof
    assume "\<not> contains ds0 ''precipitationCal''"
    then have n: "var_name_of ds0 = ''precipitation''"
      unfolding var_name_of_def by simp
    from v0 have "contains ds0 (var_name_of ds0)" by (rule contains_map_of)
    with n name show "da_name out = ''precipitation'' \<and> contains ds0 ''precipitation''"
      by simp
  qed
  from v0 have v0': "map_of (ds_variables ds0) (da_name out) = Some v0"
    unfolding name .
  show ?thesis
    by (rule exI [of _ ds0], rule exI [of _ v0]) (intro conjI op v0' payload cal other)
qed

theorem process_imerg_selects_variable_witness:
  "process_imerg (example_env server_ok example_dataset_v6) ''temp/imerg_temp.nc'' fetched_world
     = Inr example_array_v6
   \<and> contains example_dataset_v6 ''precipitationCal'' \<and> contains example_dataset_v6 ''precipitation''
   \<and> da_name example_array_v6 = ''precipitationCal''
   \<and> process_imerg (example_env server_ok example_dataset) ''temp/imerg_temp.nc'' fetched_world
     = Inr example_array
   \<and> \<not> contains example_dataset ''precipitationCal''
   \<and> da_name example_array = ''precipitation''"
proof -
  have c6: "contains example_dataset_v6 ''precipitationCal''" "contains example_dataset_v6 ''precipitation''"
    by (simp_all add: contains_def example_dataset_v6_def)
  have c7: "\<not> contains example_dataset ''precipitationCal''"
    by (simp add: contains_def example_dataset_def)
  from process_imerg_selects_variable [OF run_example_v6] obtain ds0 where
    "xr_open_dataset (example_env server_ok example_dataset_v6) fetched_world ''temp/imerg_temp.nc'' = Inr ds0"
    "contains ds0 ''precipitationCal'' \<longrightarrow> da_name example_array_v6 = ''precipitationCal''"
    by blast
  with c6 have n6: "da_name example_array_v6 = ''precipitationCal''"
    unfolding open_example by simp
  from process_imerg_selects_variable [OF run_example] obtain ds1 where
    "xr_open_dataset (example_env server_ok example_dataset) fetched_world ''temp/imerg_temp.nc'' = Inr ds1"
    "\<not> contains ds1 ''precipitationCal'' \<longrightarrow> da_name example_array = ''precipitation'' \<and> contains ds1 ''precipitation''"
    by blast
  with c7 have n7: "da_name example_array = ''precipitation''"
    unfolding open_example by simp
  from run_example_v6 c6 n6 run_example c7 n7 show ?thesis
    by (intro conjI)
qed

text \<open>
  Claim C7, as amended. With \<open>squeeze(drop=True)\<close> a time dimension of length 1 leaves
  nothing behind: the returned array has no dimension \<open>time\<close>, none of its coordinates
  lies along \<open>time\<close>, and (the variables called \<open>time\<close> being one-dimensional along
  \<open>time\<close>) it has no coordinate called \<open>time\<close>. Its attributes are those of the input
  variable, so no date is attached to it.
\<close>

theorem process_imerg_drops_time:
  assumes "process_imerg env path w = Inr out"
  shows "\<exists>ds0 v0. xr_open_dataset env w path = Inr ds0
      \<and> map_of (ds_variables ds0) (var_name_of ds0) = Some v0
      \<and> vattrs (da_variable out) = vattrs v0
      \<and> ((''time'', 1) \<in> set (vshape v0) \<longrightarrow>
            ''time'' \<notin> set (vdims (da_variable out))
            \<and> (\<forall>(k, c) \<in> set (da_coords out). ''time'' \<notin> set (vdims c)))
      \<and> ((''time'', 1) \<in> set (vshape v0)
            \<and> (\<forall>tv. (''time'', tv) \<in> set (ds_variables ds0) \<longrightarrow> vdims tv = [''time'']) \<longrightarrow>
            ''time'' \<notin> fst ` set (da_coords out))"
proof -
  from assms obtain ds0 ds da da1 da2 where
    op: "xr_open_dataset env w path = Inr ds0"
    and tr: "transpose_ds [''lat'', ''lon'', ''time'', ''nv''] ds0 = Inr ds"
    and gi: "getitem_ds ds (var_name_of ds) = Inr da"
    and ft: "fix_time env ds da = Inr da1"
    and rn: "rename_da [(''lon'', ''x''), (''lat'', ''y'')] da1 = Inr da2"
    and out: "out = squeeze_drop da2"
    by (rule process_imerg_Inr)
  from tr gi ft rn obtain v0 where
    v0: "map_of (ds_variables ds0) (var_name_of ds0) = Some v0"
    and da2: "da_variable da2 = rename_variable [(''lon'', ''x''), (''lat'', ''y'')]
                         (transpose_variable [''lat'', ''lon'', ''time'', ''nv''] v0)"
    by (rule variable_through_stages)
  have attrs: "vattrs (da_variable out) = vattrs v0"
    unfolding out squeeze_drop_payload da2 payload_kept by (rule refl)
  have squeezed: "''time'' \<in> set (squeeze_dims da2)" if "(''time'', 1) \<in> set (vshape v0)"
    using that unfolding squeeze_dims_iff squeezed_canonical(3) [OF da2] .
  have no_dim: "''time'' \<notin> set (vdims (da_variable out))" if "(''time'', 1) \<in> set (vshape v0)"
  proof
    assume "''time'' \<in> set (vdims (da_variable out))"
    then obtain n where "(''time'', n) \<in> set (vshape (da_variable (squeeze_drop da2)))"
      unfolding out vdims_def by auto
    then have "(''time'', 1) \<notin> set (vshape (da_variable da2))"
      unfolding squeeze_kept by simp
    with squeezed [OF that] show False
      unfolding squeeze_dims_iff by simp
  qed
  have no_coord_dim: "\<forall>(k, c) \<in> set (da_coords out). ''time'' \<notin> set (vdims c)"
    if "(''time'', 1) \<in> set (vshape v0)"
  proof (clarify)
    fix k c assume "(k, c) \<in> set (da_coords out)" "''time'' \<in> set (vdims c)"
    with squeeze_drop_coord_dims [of k c da2 "''time''"] squeezed [OF that] show False
      unfolding out by simp
  qed
  have no_coord: "''time'' \<notin> fst ` set (da_coords out)"
    if one: "(''time'', 1) \<in> set (vshape v0)"
      and wf: "\<forall>tv. (''time'', tv) \<in> set (ds_variables ds0) \<longrightarrow> vdims tv = [''time'']"
  proof
    assume "''time'' \<in> fst ` set (da_coords out)"
    then obtain c where c: "(''time'', c) \<in> set (da_coords (squeeze_drop da2))"
      unfolding out by auto
    from wf have wf': "\<And>tv. (''time'', tv) \<in> set (ds_variables ds0) \<Longrightarrow> vdims tv = [''time'']"
      by simp
    have along: "\<And>c. (''time'', c) \<in> set (da_coords da2) \<Longrightarrow> vdims c = [''time'']"
      using tr gi ft rn wf' by (rule time_coords_through_stages)
    from c along squeezed [OF one] show False
      by (rule squeeze_drop_along)
  qed
  have part2: "(''time'', 1) \<in> set (vshape v0) \<longrightarrow>
            ''time'' \<notin> set (vdims (da_variable out))
            \<and> (\<forall>(k, c) \<in> set (da_coords out). ''time'' \<notin> set (vdims c))"
    using no_dim no_coord_dim by (intro impI conjI)
  have part3: "(''time'', 1) \<in> set (vshape v0)
            \<and> (\<forall>tv. (''time'', tv) \<in> set (ds_variables ds0) \<longrightarrow> vdims tv = [''time'']) \<longrightarrow>
            ''time'' \<notin> fst ` set (da_coords out)"
  proof (intro impI, elim conjE)
    assume "(''time'', 1) \<in> set (vshape v0)"
      "\<forall>tv. (''time'', tv) \<in> set (ds_variables ds0) \<longrightarrow> vdims tv = [''time'']"
    then show "''time'' \<notin> fst ` set (da_coords out)" by (rule no_coord)
  qed
  show ?thesis
    by (rule exI [of _ ds0], rule exI [of _ v0]) (intro conjI op v0 attrs part2 part3)
qed

theorem process_imerg_drops_time_witness:
  "process_imerg (example_env server_ok example_dataset) ''temp/imerg_temp.nc'' fetched_world = Inr example_array
   \<and> ''time'' \<notin> fst ` set (da_coords example_array)
   \<and> ''time'' \<notin> set (vdims (da_variable example_array))"
proof -
  from process_imerg_drops_time [OF run_example] obtain ds0 v0 where
    op: "xr_open_dataset (example_env server_ok example_dataset) fetched_world ''temp/imerg_temp.nc'' = Inr ds0"
    and v0: "map_of (ds_variables ds0) (var_name_of ds0) = Some v0"
    and p2: "(''time'', 1) \<in> set (vshape v0) \<longrightarrow>
            ''time'' \<notin> set (vdims (da_variable example_array))
            \<and> (\<forall>(k, c) \<in> set (da_coords example_array). ''time'' \<notin> set (vdims c))"
    and p3: "(''time'', 1) \<in> set (vshape v0)
            \<and> (\<forall>tv. (''time'', tv) \<in> set (ds_variables ds0) \<longrightarrow> vdims tv = [''time'']) \<longrightarrow>
            ''time'' \<notin> fst ` set (da_coords example_array)"
    by blast
  from op have ds0: "ds0 = example_dataset"
    unfolding open_example by simp
  from v0 have one: "(''time'', 1) \<in> set (vshape v0)"
    unfolding ds0 example_selected by auto
  from p3 one example_time_variables have "''time'' \<notin> fst ` set (da_coords example_array)"
    unfolding ds0 by blast
  moreover from p2 one have "''time'' \<notin> set (vdims (da_variable example_array))"
    by blast
  ultimately show ?thesis
    using run_example by (intro conjI)
qed

text \<open>
  The claim as stated fails on a daily granule: the dataset has a time coordinate with
  one entry, the returned array has the coordinates \<open>x\<close> and \<open>y\<close> only and the
  attributes of the precipitation variable.
\<close>

theorem process_imerg_returns_no_timestamp:
  "process_imerg (example_env server_ok example_dataset) ''temp/imerg_temp.nc'' fetched_world = Inr example_array
   \<and> map_of (ds_variables example_dataset) ''time''
       = Some \<lparr>vshape = [(''time'', 1)], vdtype = M8_ns, vattrs = [],
               vvalues = Items [Datetime64 1717200000000000000]\<rparr>
   \<and> map_of (da_coords example_array) ''time'' = None
   \<and> map fst (da_coords example_array) = [''x'', ''y'']
   \<and> vdims (da_variable example_array) = [''y'', ''x'']
   \<and> vattrs (da_variable example_array) = [(''units'', ''mm/day'')]"
proof -
  have "map_of (ds_variables example_dataset) ''time''
       = Some \<lparr>vshape = [(''time'', 1)], vdtype = M8_ns, vattrs = [],
               vvalues = Items [Datetime64 1717200000000000000]\<rparr>"
    by (simp add: example_dataset_def)
  moreover have "map_of (da_coords example_array) ''time'' = None"
    "map fst (da_coords example_array) = [''x'', ''y'']"
    "vdims (da_variable example_array) = [''y'', ''x'']"
    "vattrs (da_variable example_array) = [(''units'', ''mm/day'')]"
    by (simp_all add: example_array_def vdims_def)
  ultimately show ?thesis
    using run_example by (intro conjI)
qed

section \<open>The driver\<close>

lemma fetch_and_write_frame:
  assumes "fetch_and_write env date run version save_path verbose w = (w', r)"
  shows "calls w' = calls w" and "blobs w' = blobs w" and "\<not> verbose \<Longrightarrow> stdout w' = stdout w"
  using assms
  by (auto simp: fetch_and_write_def Let_def print_def split: sum.splits if_splits pathlike.splits)

lemma download_imerg_frame:
  assumes "download_imerg env date run version save_path verbose w = (w', r)"
  shows "calls w' = calls w" and "blobs w' = blobs w" and "\<not> verbose \<Longrightarrow> stdout w' = stdout w"
proof -
  from assms consider "w' = w" | g where
    "fetch_and_write env date run version save_path verbose (w\<lparr>fs := g\<rparr>) = (w', r)"
    by (auto simp: download_imerg_def split: sum.splits)
  then have "calls w' = calls w \<and> blobs w' = blobs w \<and> (\<not> verbose \<longrightarrow> stdout w' = stdout w)"
  proof cases
    case 1
    then show ?thesis by simp
  next
    case 2
    from fetch_and_write_frame [OF 2] show ?thesis by simp
  qed
  then show "calls w' = calls w" and "blobs w' = blobs w" and "\<not> verbose \<Longrightarrow> stdout w' = stdout w"
    by simp_all
qed

lemma upload_imerg_frame:
  assumes "upload_imerg env da output_path w = (w', r)"
  shows "calls w' = calls w" and "stdout w' = stdout w"
  using assms
  by (auto simp: upload_imerg_def Let_def split: sum.splits option.splits)

lemma note_call_simps:
  "calls (note_call c w) = calls w @ [c]" "stdout (note_call c w) = stdout w"
  "calls (print l w) = calls w" "stdout (print l w) = stdout w @ [l]"
  by (simp_all add: note_call_def print_def)

text \<open>The body of the \<open>try\<close>: which stages are called, and that it prints nothing.\<close>

lemma try_body_calls:
  assumes "try_body env date (output_blob_of date) w = (w', r)"
  shows "\<exists>cs. attempt_of date cs \<and> calls w' = calls w @ cs \<and> stdout w' = stdout w"
proof -
  obtain w1 r1 where d: "download_imerg env date ''L'' 7 (PPath ''temp/imerg_temp.nc'') False
      (note_call (Fetch date) w) = (w1, r1)"
    by (cases "download_imerg env date ''L'' 7 (PPath ''temp/imerg_temp.nc'') False (note_call (Fetch date) w)")
  from download_imerg_frame [OF d] have w1: "calls w1 = calls w @ [Fetch date]" "stdout w1 = stdout w"
    by (simp_all add: note_call_simps)
  show ?thesis
  proof (cases r1)
    case (Inl e)
    with assms d have "w' = w1" by (simp add: try_body_def)
    with w1 show ?thesis
      by (intro exI [of _ "[Fetch date]"]) (simp add: attempt_of_def)
  next
    case (Inr u)
    show ?thesis
    proof (cases "process_imerg env ''temp/imerg_temp.nc'' (note_call (Transform date) w1)")
      case (Inl e)
      with assms d Inr have "w' = note_call (Transform date) w1" by (simp add: try_body_def)
      with w1 show ?thesis
        by (intro exI [of _ "[Fetch date, Transform date]"]) (simp add: attempt_of_def note_call_simps)
    next
      case da: (Inr da)
      with assms d Inr have "upload_imerg env da (output_blob_of date)
          (note_call (Publish date (output_blob_of date)) (note_call (Transform date) w1)) = (w', r)"
        by (simp add: try_body_def)
      from upload_imerg_frame [OF this] w1 show ?thesis
        by (intro exI [of _ "[Fetch date, Transform date, Publish date (output_blob_of date)]"])
           (simp add: attempt_of_def note_call_simps)
    qed
  qed
qed

lemma loop_body_skip:
  "output_blob_of date \<in> set existing_files \<Longrightarrow>
     loop_body env existing_files w date = print (output_blob_of date @ '' already exists, skipping'') w"
  by (simp add: loop_body_def Let_def)

lemma loop_body_attempt:
  assumes "output_blob_of date \<notin> set existing_files"
  shows "\<exists>cs. attempt_of date cs \<and> calls (loop_body env existing_files w date) = calls w @ cs"
proof -
  let ?w0 = "print (''downloading and processing '' @ output_blob_of date) w"
  obtain w1 r where t: "try_body env date (output_blob_of date) ?w0 = (w1, r)"
    by (cases "try_body env date (output_blob_of date) ?w0")
  from try_body_calls [OF t] obtain cs where cs: "attempt_of date cs" "calls w1 = calls w @ cs"
    by (auto simp: note_call_simps)
  from assms t have "calls (loop_body env existing_files w date) = calls w1"
    by (cases r) (simp_all add: loop_body_def Let_def note_call_simps)
  with cs show ?thesis by auto
qed

text \<open>The calls of a whole run of the loop: one attempt for each date not skipped, in order.\<close>

lemma loop_calls:
  "\<exists>css. list_all2 attempt_of (filter (\<lambda>d. output_blob_of d \<notin> set existing_files) dates) css
     \<and> calls (foldl (loop_body env existing_files) w dates) = calls w @ concat css"
proof (induction dates arbitrary: w)
  case Nil
  show ?case by simp
next
  case (Cons d dates)
  from Cons.IH [of "loop_body env existing_files w d"] obtain css where
    css: "list_all2 attempt_of (filter (\<lambda>d. output_blob_of d \<notin> set existing_files) dates) css"
      "calls (foldl (loop_body env existing_files) (loop_body env existing_files w d) dates)
         = calls (loop_body env existing_files w d) @ concat css"
    by blast
  show ?case
  proof (cases "output_blob_of d \<in> set existing_files")
    case True
    with css show ?thesis
      by (intro exI [of _ css]) (simp add: loop_body_skip note_call_simps)
  next
    case False
    from loop_body_attempt [OF False, of env w] obtain cs where
      cs: "attempt_of d cs" "calls (loop_body env existing_files w d) = calls w @ cs"
      by blast
    with css False show ?thesis
      by (intro exI [of _ "cs # css"]) simp
  qed
qed

lemma parse_start: "parse_iso_date ''2024-06-01'' = Some \<lparr>year = 2024, month = 6, day = 1\<rparr>"
  by code_simp

lemma start_day: "days_from_civil \<lparr>year = 2024, month = 6, day = 1\<rparr> = 19875"
  by code_simp

lemma start_stamp: "timestamp_of_date \<lparr>year = 2024, month = 6, day = 1\<rparr> = Inr (19875 * ns_per_day)"
  by code_simp

lemma pd_Timestamp_start: "pd_Timestamp fallback ''2024-06-01'' = Inr (19875 * ns_per_day)"
  by (simp only: pd_Timestamp_def parse_start option.case start_stamp)

lemma timestamp_of_date_Inr:
  assumes "timestamp_of_date c = Inr t"
  shows "t = days_from_civil c * ns_per_day" and "valid_date c" and "in_bounds t"
  using assms by (auto simp: timestamp_of_date_def midnight_def split: if_splits)

lemma upto_shift: "map (\<lambda>k. f (a + k)) [0..m] = map f [a..a + m]"
proof (rule nth_equalityI)
  show "length (map (\<lambda>k. f (a + k)) [0..m]) = length (map f [a..a + m])" by simp
next
  fix i assume "i < length (map (\<lambda>k. f (a + k)) [0..m])"
  then have i: "0 + int i \<le> m" "a + int i \<le> a + m" "i < length [0..m]" "i < length [a..a + m]"
    by simp_all
  from i(3,4) have "map (\<lambda>k. f (a + k)) [0..m] ! i = f (a + [0..m] ! i)"
    "map f [a..a + m] ! i = f ([a..a + m] ! i)"
    by simp_all
  with nth_upto [OF i(1)] nth_upto [OF i(2)]
  show "map (\<lambda>k. f (a + k)) [0..m] ! i = map f [a..a + m] ! i"
    by simp
qed

lemma date_range_days:
  "date_range (a * ns_per_day) (b * ns_per_day - ns_per_day) = map (\<lambda>n. n * ns_per_day) [a..b - 1]"
proof -
  have nz: "ns_per_day \<noteq> 0"
    by (simp add: ns_per_day_def)
  have "b * ns_per_day - ns_per_day - a * ns_per_day = (b - 1 - a) * ns_per_day"
    by (simp add: algebra_simps)
  with nz have d: "(b * ns_per_day - ns_per_day - a * ns_per_day) div ns_per_day = b - 1 - a"
    by simp
  have "\<And>k. a * ns_per_day + k * ns_per_day = (a + k) * ns_per_day"
    by (simp add: algebra_simps)
  then have "date_range (a * ns_per_day) (b * ns_per_day - ns_per_day)
      = map (\<lambda>k. (a + k) * ns_per_day) [0..b - 1 - a]"
    unfolding date_range_def d by simp
  also have "\<dots> = map (\<lambda>n. n * ns_per_day) [a..a + (b - 1 - a)]"
    by (rule upto_shift)
  finally show ?thesis by simp
qed

lemma download_recent_imerg_Inr:
  assumes "list_blobs env w ''imerg/v7'' = Inr existing_files"
    and "timestamp_of_date (today env) = Inr t"
  shows "download_recent_imerg env w =
      (foldl (loop_body env existing_files) w
         (map (\<lambda>n. n * ns_per_day) [19875..days_from_civil (today env) - 1]), Inr ())"
proof -
  from assms(2) have t: "t = days_from_civil (today env) * ns_per_day"
    by (rule timestamp_of_date_Inr)
  show ?thesis
    unfolding download_recent_imerg_def assms(1) pd_Timestamp_start assms(2) t
    by (simp add: date_range_days)
qed

lemma download_recent_imerg_cases:
  assumes "download_recent_imerg env w = (w', r)"
    and "list_blobs env w ''imerg/v7'' = Inr existing_files"
  obtains (raised) e where "timestamp_of_date (today env) = Inl e" "w' = w" "r = Inl e"
  | (looped) t where "timestamp_of_date (today env) = Inr t" "r = Inr ()"
      "w' = foldl (loop_body env existing_files) w
         (map (\<lambda>n. n * ns_per_day) [19875..days_from_civil (today env) - 1])"
proof (cases "timestamp_of_date (today env)")
  case (Inl e)
  with assms have "w' = w" "r = Inl e"
    by (simp_all add: download_recent_imerg_def pd_Timestamp_start)
  with Inl show ?thesis by (rule raised)
next
  case (Inr t)
  from download_recent_imerg_Inr [OF assms(2) Inr] assms(1) have "r = Inr ()"
    "w' = foldl (loop_body env existing_files) w
         (map (\<lambda>n. n * ns_per_day) [19875..days_from_civil (today env) - 1])"
    by simp_all
  with Inr show ?thesis by (rule looped)
qed

lemma attempt_calls_dated:
  assumes "list_all2 attempt_of ds css" and "c \<in> set (concat css)"
  shows "call_date c \<in> set ds"
proof -
  from assms(2) obtain cs where cs: "cs \<in> set css" "c \<in> set cs" by auto
  then obtain i where i: "i < length css" "css ! i = cs" by (auto simp: in_set_conv_nth)
  with assms(1) have "attempt_of (ds ! i) cs" "i < length ds"
    by (auto simp: list_all2_conv_all_nth)
  with cs(2) have "call_date c = ds ! i" by (auto simp: attempt_of_def)
  with \<open>i < length ds\<close> show ?thesis by simp
qed

lemma attempt_fetch:
  assumes "list_all2 attempt_of ds css" and "d \<in> set ds"
  shows "Fetch d \<in> set (concat css)"
proof -
  from assms(2) obtain i where i: "i < length ds" "ds ! i = d" by (auto simp: in_set_conv_nth)
  with assms(1) have "attempt_of d (css ! i)" "i < length css"
    by (auto simp: list_all2_conv_all_nth)
  then have "Fetch d \<in> set (css ! i)" "css ! i \<in> set css"
    by (auto simp: attempt_of_def)
  then show ?thesis by auto
qed

lemma date_of_day: "date_of (n * ns_per_day) = civil_from_days n"
  by (simp add: date_of_def ns_per_day_def)

lemma civil_start: "civil_from_days 19875 = \<lparr>year = 2024, month = 6, day = 1\<rparr>"
  by code_simp

lemma upload_imerg_blobs:
  assumes "upload_imerg env da output_path w = (w', r)"
  shows "fst ` set (blobs w) \<subseteq> fst ` set (blobs w')"
    and "r = Inr u \<Longrightarrow> output_path \<in> fst ` set (blobs w')"
proof -
  from assms consider "blobs w' = blobs w" "\<exists>e. r = Inl e"
    | tif where "blobs w' = AList.update output_path tif (blobs w)"
    by (auto simp: upload_imerg_def Let_def split: sum.splits option.splits)
  then have "fst ` set (blobs w) \<subseteq> fst ` set (blobs w')
      \<and> (r = Inr u \<longrightarrow> output_path \<in> fst ` set (blobs w'))"
  proof cases
    case 1
    then show ?thesis by auto
  next
    case 2
    then show ?thesis by (simp add: dom_update subset_insertI)
  qed
  then show "fst ` set (blobs w) \<subseteq> fst ` set (blobs w')"
    and "r = Inr u \<Longrightarrow> output_path \<in> fst ` set (blobs w')"
    by simp_all
qed

lemma try_body_blobs:
  assumes "try_body env date output_blob w = (w', r)"
  shows "fst ` set (blobs w) \<subseteq> fst ` set (blobs w')"
    and "r = Inr u \<Longrightarrow> output_blob \<in> fst ` set (blobs w')"
proof -
  obtain w1 r1 where d: "download_imerg env date ''L'' 7 (PPath ''temp/imerg_temp.nc'') False
      (note_call (Fetch date) w) = (w1, r1)"
    by (cases "download_imerg env date ''L'' 7 (PPath ''temp/imerg_temp.nc'') False (note_call (Fetch date) w)")
  from download_imerg_frame(2) [OF d] have b1: "blobs w1 = blobs w"
    by (simp add: note_call_def)
  have "fst ` set (blobs w) \<subseteq> fst ` set (blobs w') \<and> (r = Inr u \<longrightarrow> output_blob \<in> fst ` set (blobs w'))"
  proof (cases r1)
    case (Inl e)
    with assms d have "w' = w1" "r = Inl e" by (simp_all add: try_body_def)
    with b1 show ?thesis by simp
  next
    case (Inr u1)
    show ?thesis
    proof (cases "process_imerg env ''temp/imerg_temp.nc'' (note_call (Transform date) w1)")
      case (Inl e)
      with assms d Inr have "w' = note_call (Transform date) w1" "r = Inl e"
        by (simp_all add: try_body_def)
      with b1 show ?thesis by (simp add: note_call_def)
    next
      case da: (Inr da)
      with assms d Inr have up: "upload_imerg env da output_blob
          (note_call (Publish date output_blob) (note_call (Transform date) w1)) = (w', r)"
        by (simp add: try_body_def)
      from upload_imerg_blobs [OF up] b1 show ?thesis
        by (simp add: note_call_def)
    qed
  qed
  then show "fst ` set (blobs w) \<subseteq> fst ` set (blobs w')"
    and "r = Inr u \<Longrightarrow> output_blob \<in> fst ` set (blobs w')"
    by simp_all
qed

text \<open>One turn of the loop for a date that is not skipped: the two ways it ends.\<close>

lemma loop_body_cases:
  assumes "output_blob_of date \<notin> set existing_files"
  obtains (failed) w1 e where
      "try_body env date (output_blob_of date)
         (print (''downloading and processing '' @ output_blob_of date) w) = (w1, Inl e)"
      "loop_body env existing_files w date =
         print (str_exn e) (print (''failed to download and process '' @ str_timestamp date) w1)"
  | (published) w1 where
      "try_body env date (output_blob_of date)
         (print (''downloading and processing '' @ output_blob_of date) w) = (w1, Inr ())"
      "loop_body env existing_files w date = w1"
proof -
  let ?w0 = "print (''downloading and processing '' @ output_blob_of date) w"
  obtain w1 r where t: "try_body env date (output_blob_of date) ?w0 = (w1, r)"
    by (cases "try_body env date (output_blob_of date) ?w0")
  show ?thesis
  proof (cases r)
    case (Inl e)
    with assms t have "loop_body env existing_files w date =
         print (str_exn e) (print (''failed to download and process '' @ str_timestamp date) w1)"
      by (simp add: loop_body_def Let_def)
    with t Inl show ?thesis by (intro failed [of w1 e]) simp_all
  next
    case (Inr u)
    with assms t have "loop_body env existing_files w date = w1"
      by (simp add: loop_body_def Let_def)
    with t Inr show ?thesis by (intro published [of w1]) simp_all
  qed
qed

lemma loop_body_grows:
  "set (stdout w) \<subseteq> set (stdout (loop_body env existing_files w date))"
  "fst ` set (blobs w) \<subseteq> fst ` set (blobs (loop_body env existing_files w date))"
proof -
  have "set (stdout w) \<subseteq> set (stdout (loop_body env existing_files w date))
      \<and> fst ` set (blobs w) \<subseteq> fst ` set (blobs (loop_body env existing_files w date))"
  proof (cases "output_blob_of date \<in> set existing_files")
    case True
    then show ?thesis by (simp add: loop_body_skip print_def subset_insertI)
  next
    case False
    let ?w0 = "print (''downloading and processing '' @ output_blob_of date) w"
    from False show ?thesis
    proof (cases rule: loop_body_cases [of date existing_files env w])
      case (failed w1 e)
      from try_body_calls [OF failed(1)] try_body_blobs(1) [OF failed(1)] show ?thesis
        unfolding failed(2) by (auto simp: print_def)
    next
      case (published w1)
      from try_body_calls [OF published(1)] try_body_blobs(1) [OF published(1)] show ?thesis
        unfolding published(2) by (auto simp: print_def)
    qed
  qed
  then show "set (stdout w) \<subseteq> set (stdout (loop_body env existing_files w date))"
    "fst ` set (blobs w) \<subseteq> fst ` set (blobs (loop_body env existing_files w date))"
    by simp_all
qed

lemma loop_grows:
  "set (stdout w) \<subseteq> set (stdout (foldl (loop_body env existing_files) w dates))
   \<and> fst ` set (blobs w) \<subseteq> fst ` set (blobs (foldl (loop_body env existing_files) w dates))"
proof (induction dates arbitrary: w)
  case Nil
  show ?case by simp
next
  case (Cons d dates)
  from Cons.IH [of "loop_body env existing_files w d"] loop_body_grows [of w env existing_files d]
  show ?case
    unfolding foldl_Cons by (intro conjI) (erule order_trans, erule conjunct1, erule order_trans, erule conjunct2)
qed

text \<open>A date that is not skipped ends published or with its failure printed.\<close>

lemma loop_body_accounted:
  assumes "output_blob_of date \<notin> set existing_files"
  shows "''failed to download and process '' @ str_timestamp date
           \<in> set (stdout (loop_body env existing_files w date))
       \<or> output_blob_of date \<in> fst ` set (blobs (loop_body env existing_files w date))"
  using assms
proof (cases rule: loop_body_cases [of date existing_files env w])
  case (failed w1 e)
  show ?thesis unfolding failed(2) by (simp add: print_def)
next
  case (published w1)
  from try_body_blobs(2) [OF published(1)] show ?thesis
    unfolding published(2) by simp
qed

lemma loop_accounted:
  assumes "date \<in> set dates" and "output_blob_of date \<notin> set existing_files"
  shows "''failed to download and process '' @ str_timestamp date
           \<in> set (stdout (foldl (loop_body env existing_files) w dates))
       \<or> output_blob_of date \<in> fst ` set (blobs (foldl (loop_body env existing_files) w dates))"
  using assms(1)
proof (induction dates arbitrary: w)
  case Nil
  then show ?case by simp
next
  case (Cons d dates)
  show ?case
  proof (cases "date = d")
    case True
    from loop_body_accounted [OF assms(2), of env w]
      loop_grows [of "loop_body env existing_files w date" env existing_files dates]
    show ?thesis unfolding True [symmetric] by auto
  next
    case False
    with Cons.prems have "date \<in> set dates" by simp
    from Cons.IH [OF this, of "loop_body env existing_files w d"] show ?thesis by simp
  qed
qed

text \<open>A GET that raises, or that answers with a status from 400 to 599, fails the fetch.\<close>

lemma download_imerg_fails:
  assumes "(\<exists>m. http_get env (download_url date run version) = Inl m)
     \<or> (\<exists>resp. http_get env (download_url date run version) = Inr resp
            \<and> 400 \<le> status_code resp \<and> status_code resp < 600)"
  shows "\<exists>w1 e. download_imerg env date run version save_path verbose w = (w1, Inl e)"
  using assms
  by (auto simp: download_imerg_def fetch_and_write_def Let_def raise_for_status_def split: sum.splits)

lemma loop_body_fetch_failed:
  assumes "output_blob_of date \<notin> set existing_files"
    and "(\<exists>m. http_get env (download_url date ''L'' 7) = Inl m)
     \<or> (\<exists>resp. http_get env (download_url date ''L'' 7) = Inr resp
            \<and> 400 \<le> status_code resp \<and> status_code resp < 600)"
  shows "''failed to download and process '' @ str_timestamp date
           \<in> set (stdout (loop_body env existing_files w date))"
  using assms(1)
proof (cases rule: loop_body_cases [of date existing_files env w])
  case (failed w1 e)
  show ?thesis unfolding failed(2) by (simp add: print_def)
next
  case (published w1)
  from download_imerg_fails [OF assms(2)] obtain w2 e where
    "download_imerg env date ''L'' 7 (PPath ''temp/imerg_temp.nc'') False
       (note_call (Fetch date) (print (''downloading and processing '' @ output_blob_of date) w)) = (w2, Inl e)"
    by blast
  with published(1) show ?thesis by (simp add: try_body_def)
qed

lemma loop_fetch_failed:
  assumes "date \<in> set dates" and "output_blob_of date \<notin> set existing_files"
    and "(\<exists>m. http_get env (download_url date ''L'' 7) = Inl m)
     \<or> (\<exists>resp. http_get env (download_url date ''L'' 7) = Inr resp
            \<and> 400 \<le> status_code resp \<and> status_code resp < 600)"
  shows "''failed to download and process '' @ str_timestamp date
           \<in> set (stdout (foldl (loop_body env existing_files) w dates))"
  using assms(1)
proof (induction dates arbitrary: w)
  case Nil
  then show ?case by simp
next
  case (Cons d dates)
  show ?case
  proof (cases "date = d")
    case True
    from loop_body_fetch_failed [OF assms(2,3), of w]
      loop_grows [of "loop_body env existing_files w date" env existing_files dates]
    show ?thesis unfolding True [symmetric] by auto
  next
    case False
    with Cons.prems have "date \<in> set dates" by simp
    from Cons.IH [OF this, of "loop_body env existing_files w d"] show ?thesis by simp
  qed
qed

lemma loop_skip_logged:
  assumes "date \<in> set dates" and "output_blob_of date \<in> set existing_files"
  shows "output_blob_of date @ '' already exists, skipping''
           \<in> set (stdout (foldl (loop_body env existing_files) w dates))"
  using assms(1)
proof (induction dates arbitrary: w)
  case Nil
  then show ?case by simp
next
  case (Cons d dates)
  show ?case
  proof (cases "date = d")
    case True
    have "output_blob_of date @ '' already exists, skipping''
        \<in> set (stdout (loop_body env existing_files w date))"
      unfolding loop_body_skip [OF assms(2)] by (simp add: print_def)
    with loop_grows [of "loop_body env existing_files w date" env existing_files dates]
    show ?thesis unfolding True [symmetric] by auto
  next
    case False
    with Cons.prems have "date \<in> set dates" by simp
    from Cons.IH [OF this, of "loop_body env existing_files w d"] show ?thesis by simp
  qed
qed

lemma listed_blob:
  assumes "list_blobs env w name_starts_with = Inr existing_files" and "b \<in> set existing_files"
  shows "b \<in> fst ` set (blobs w)"
  using assms by (auto simp: list_blobs_def split: option.splits)

lemma days_sorted: "sorted_wrt (<) (map (\<lambda>n. n * ns_per_day) [a..b])"
proof -
  have "sorted_wrt (<) [a..b]" by simp
  then have "sorted_wrt (\<lambda>x y. x * ns_per_day < y * ns_per_day) [a..b]"
    by (rule sorted_wrt_mono_rel [rotated]) (simp add: ns_per_day_def)
  then show ?thesis by (simp add: sorted_wrt_map)
qed

section \<open>What the driver does\<close>

text \<open>
  Claim C9. When the listing has been read and today's date makes a Timestamp, the loop
  of \<open>download_recent_imerg\<close> runs over the days numbered 19875, which is 2024-06-01,
  to the day number of today less one, each as the Timestamp of its midnight: that is
  what \<open>pd.date_range\<close> returns for the two ends the driver passes. The list is in
  increasing order, the driver returns normally the world that the turns of the loop,
  taken in that order, leave behind, and the stages called are one attempt (fetch, then
  transform, then publish, up to the first that raises) for each date not skipped, in
  the order of the list.
\<close>

theorem download_recent_imerg_dates:
  assumes "list_blobs env w ''imerg/v7'' = Inr existing_files"
    and "timestamp_of_date (today env) = Inr t"
  shows "\<exists>dates. dates = map (\<lambda>n. n * ns_per_day) [19875..days_from_civil (today env) - 1]
      \<and> civil_from_days 19875 = \<lparr>year = 2024, month = 6, day = 1\<rparr>
      \<and> (\<forall>n. date_of (n * ns_per_day) = civil_from_days n)
      \<and> pd_Timestamp (dateutil_parse env) ''2024-06-01'' = Inr (19875 * ns_per_day)
      \<and> t - ns_per_day = (days_from_civil (today env) - 1) * ns_per_day
      \<and> date_range (19875 * ns_per_day) (t - ns_per_day) = dates
      \<and> sorted_wrt (<) dates
      \<and> download_recent_imerg env w = (foldl (loop_body env existing_files) w dates, Inr ())
      \<and> (\<exists>css. list_all2 attempt_of (filter (\<lambda>d. output_blob_of d \<notin> set existing_files) dates) css
            \<and> calls (fst (download_recent_imerg env w)) = calls w @ concat css)"
proof -
  let ?dates = "map (\<lambda>n. n * ns_per_day) [19875..days_from_civil (today env) - 1]"
  from assms(2) have t: "t = days_from_civil (today env) * ns_per_day"
    by (rule timestamp_of_date_Inr)
  have yesterday: "t - ns_per_day = (days_from_civil (today env) - 1) * ns_per_day"
    unfolding t by (simp add: algebra_simps)
  have range: "date_range (19875 * ns_per_day) (t - ns_per_day) = ?dates"
    unfolding t by (rule date_range_days)
  have run: "download_recent_imerg env w = (foldl (loop_body env existing_files) w ?dates, Inr ())"
    using assms by (rule download_recent_imerg_Inr)
  from loop_calls [of existing_files ?dates env w] obtain css where
    "list_all2 attempt_of (filter (\<lambda>d. output_blob_of d \<notin> set existing_files) ?dates) css"
    "calls (foldl (loop_body env existing_files) w ?dates) = calls w @ concat css"
    by blast
  then have trace: "\<exists>css. list_all2 attempt_of (filter (\<lambda>d. output_blob_of d \<notin> set existing_files) ?dates) css
            \<and> calls (fst (download_recent_imerg env w)) = calls w @ concat css"
    unfolding run fst_conv by blast
  have days: "\<forall>n. date_of (n * ns_per_day) = civil_from_days n"
    by (simp add: date_of_day)
  show ?thesis
    by (rule exI [of _ ?dates])
       (intro conjI refl civil_start days pd_Timestamp_start yesterday range days_sorted run trace)
qed

theorem download_recent_imerg_dates_witness:
  "download_recent_imerg (example_env server_ok example_dataset) empty_world
     = (foldl (loop_body (example_env server_ok example_dataset) []) empty_world
          [19875 * ns_per_day, 19876 * ns_per_day], Inr ())
   \<and> date_range (19875 * ns_per_day) (19877 * ns_per_day - ns_per_day)
       = [19875 * ns_per_day, 19876 * ns_per_day]
   \<and> sorted_wrt (<) [19875 * ns_per_day, 19876 * ns_per_day]"
proof -
  have t: "timestamp_of_date (today (example_env server_ok example_dataset)) = Inr (19877 * ns_per_day)"
    unfolding today_example by (rule today_stamp)
  from download_recent_imerg_dates [OF listing_empty t] obtain dates where
    d: "dates = map (\<lambda>n. n * ns_per_day) [19875..days_from_civil (today (example_env server_ok example_dataset)) - 1]"
    and r: "date_range (19875 * ns_per_day) (19877 * ns_per_day - ns_per_day) = dates"
    and s: "sorted_wrt (<) dates"
    and run: "download_recent_imerg (example_env server_ok example_dataset) empty_world
      = (foldl (loop_body (example_env server_ok example_dataset) []) empty_world dates, Inr ())"
    by blast
  from d have "dates = [19875 * ns_per_day, 19876 * ns_per_day]"
    unfolding today_example today_day by simp
  with r s run show ?thesis by simp
qed

text \<open>
  Claim C1. Let the name of a date's output blob be in the listing read at the start of
  the run, so that a blob of that name is in the container. Then a turn of the loop for
  that date only prints the line that says so, and the loop goes on from there with the
  dates that follow; over the whole run no call of \<open>download_imerg\<close>,
  \<open>process_imerg\<close> or \<open>upload_imerg\<close> is made for that date; and when the date is
  in the range of the run, the line is in the output.
\<close>

theorem download_recent_imerg_skips_existing:
  assumes "download_recent_imerg env w = (w', r)"
    and "list_blobs env w ''imerg/v7'' = Inr existing_files"
    and "output_blob_of date \<in> set existing_files"
  shows "output_blob_of date \<in> fst ` set (blobs w)
    \<and> (\<forall>w0. loop_body env existing_files w0 date
              = print (output_blob_of date @ '' already exists, skipping'') w0)
    \<and> (\<forall>w0 dates. foldl (loop_body env existing_files) w0 (date # dates)
              = foldl (loop_body env existing_files)
                  (print (output_blob_of date @ '' already exists, skipping'') w0) dates)
    \<and> (\<exists>cs. calls w' = calls w @ cs \<and> (\<forall>c \<in> set cs. call_date c \<noteq> date))
    \<and> (\<forall>t. timestamp_of_date (today env) = Inr t
              \<and> date \<in> set (date_range (19875 * ns_per_day) (t - ns_per_day)) \<longrightarrow>
            output_blob_of date @ '' already exists, skipping'' \<in> set (stdout w'))"
proof -
  have stored: "output_blob_of date \<in> fst ` set (blobs w)"
    using assms(2,3) by (rule listed_blob)
  have turn: "\<forall>w0. loop_body env existing_files w0 date
              = print (output_blob_of date @ '' already exists, skipping'') w0"
    using assms(3) by (simp add: loop_body_skip)
  then have continues: "\<forall>w0 dates. foldl (loop_body env existing_files) w0 (date # dates)
              = foldl (loop_body env existing_files)
                  (print (output_blob_of date @ '' already exists, skipping'') w0) dates"
    by simp
  let ?dates = "map (\<lambda>n. n * ns_per_day) [19875..days_from_civil (today env) - 1]"
  have none: "\<exists>cs. calls w' = calls w @ cs \<and> (\<forall>c \<in> set cs. call_date c \<noteq> date)"
    using assms(1,2)
  proof (cases rule: download_recent_imerg_cases)
    case (raised e)
    then show ?thesis by (intro exI [of _ "[]"]) simp
  next
    case (looped t)
    from loop_calls [of existing_files ?dates env w] obtain css where
      css: "list_all2 attempt_of (filter (\<lambda>d. output_blob_of d \<notin> set existing_files) ?dates) css"
      "calls w' = calls w @ concat css"
      unfolding looped(3) by blast
    have "\<forall>c \<in> set (concat css). call_date c \<noteq> date"
    proof
      fix c assume "c \<in> set (concat css)"
      with css(1) have "call_date c \<in> set (filter (\<lambda>d. output_blob_of d \<notin> set existing_files) ?dates)"
        by (rule attempt_calls_dated)
      then have "output_blob_of (call_date c) \<notin> set existing_files" by simp
      with assms(3) show "call_date c \<noteq> date" by auto
    qed
    with css(2) show ?thesis by blast
  qed
  have logged: "\<forall>t. timestamp_of_date (today env) = Inr t
              \<and> date \<in> set (date_range (19875 * ns_per_day) (t - ns_per_day)) \<longrightarrow>
            output_blob_of date @ '' already exists, skipping'' \<in> set (stdout w')"
  proof (intro allI impI, elim conjE)
    fix t assume t: "timestamp_of_date (today env) = Inr t"
      and d: "date \<in> set (date_range (19875 * ns_per_day) (t - ns_per_day))"
    from t have "t = days_from_civil (today env) * ns_per_day"
      by (rule timestamp_of_date_Inr)
    with d have d': "date \<in> set ?dates"
      by (simp only: date_range_days)
    from download_recent_imerg_Inr [OF assms(2) t] assms(1)
    have "w' = foldl (loop_body env existing_files) w ?dates" by simp
    with loop_skip_logged [OF d' assms(3), of env w]
    show "output_blob_of date @ '' already exists, skipping'' \<in> set (stdout w')"
      by simp
  qed
  show ?thesis
    by (intro conjI stored turn continues none logged)
qed

theorem download_recent_imerg_skips_existing_witness:
  "list_blobs (example_env server_ok example_dataset) skip_world ''imerg/v7''
     = Inr [''imerg/v7/imerg-daily-late-2024-06-01.tif'']
   \<and> output_blob_of example_date = ''imerg/v7/imerg-daily-late-2024-06-01.tif''
   \<and> (\<exists>cs. calls (fst (download_recent_imerg (example_env server_ok example_dataset) skip_world))
             = calls skip_world @ cs
          \<and> list_all (\<lambda>c. call_date c \<noteq> example_date) cs)
   \<and> ''imerg/v7/imerg-daily-late-2024-06-01.tif already exists, skipping''
       \<in> set (stdout (fst (download_recent_imerg (example_env server_ok example_dataset) skip_world)))"
proof -
  let ?env = "example_env server_ok example_dataset"
  have run: "download_recent_imerg ?env skip_world
      = (fst (download_recent_imerg ?env skip_world), snd (download_recent_imerg ?env skip_world))"
    by simp
  have present: "output_blob_of example_date \<in> set [''imerg/v7/imerg-daily-late-2024-06-01.tif'']"
    unfolding example_blob by simp
  have t: "timestamp_of_date (today ?env) = Inr (19877 * ns_per_day)"
    unfolding today_example by (rule today_stamp)
  have inside: "example_date \<in> set (date_range (19875 * ns_per_day) (19877 * ns_per_day - ns_per_day))"
    unfolding date_range_days example_days(1) by simp
  note skip = download_recent_imerg_skips_existing [OF run listing_skip present]
  from skip have "\<exists>cs. calls (fst (download_recent_imerg ?env skip_world)) = calls skip_world @ cs
          \<and> (\<forall>c \<in> set cs. call_date c \<noteq> example_date)"
    by (elim conjE)
  then have none: "\<exists>cs. calls (fst (download_recent_imerg ?env skip_world)) = calls skip_world @ cs
          \<and> list_all (\<lambda>c. call_date c \<noteq> example_date) cs"
    unfolding list_all_iff .
  from skip have "\<forall>t. timestamp_of_date (today ?env) = Inr t
              \<and> example_date \<in> set (date_range (19875 * ns_per_day) (t - ns_per_day)) \<longrightarrow>
            output_blob_of example_date @ '' already exists, skipping''
              \<in> set (stdout (fst (download_recent_imerg ?env skip_world)))"
    by (elim conjE)
  with t inside have "output_blob_of example_date @ '' already exists, skipping''
              \<in> set (stdout (fst (download_recent_imerg ?env skip_world)))"
    by blast
  then have logged: "''imerg/v7/imerg-daily-late-2024-06-01.tif already exists, skipping''
       \<in> set (stdout (fst (download_recent_imerg ?env skip_world)))"
    unfolding example_blob by simp
  show ?thesis
    by (intro conjI listing_skip example_blob none logged)
qed

text \<open>
  Claim C2. When the listing has been read and today's date makes a Timestamp, the
  driver returns normally whatever the stages do. Every date of the range that is not
  skipped is fetched, whatever happened to the dates before it, and ends with its blob
  in the container or with the line that names it as failed in the output; it ends with
  that line when the GET of its fetch raises or answers with a status from 400 to 599.
  In a turn of the loop, an exception of the three stages ends the turn with two lines
  printed, the date that failed and the exception, and nothing raised.
\<close>

theorem download_recent_imerg_catches_failures:
  assumes "list_blobs env w ''imerg/v7'' = Inr existing_files"
    and "timestamp_of_date (today env) = Inr t"
  shows "\<exists>w'. download_recent_imerg env w = (w', Inr ())
      \<and> (\<forall>d \<in> set (date_range (19875 * ns_per_day) (t - ns_per_day)).
            output_blob_of d \<notin> set existing_files \<longrightarrow>
              Fetch d \<in> set (calls w')
            \<and> (''failed to download and process '' @ str_timestamp d \<in> set (stdout w')
                 \<or> output_blob_of d \<in> fst ` set (blobs w'))
            \<and> ((\<exists>m. http_get env (download_url d ''L'' 7) = Inl m)
                 \<or> (\<exists>resp. http_get env (download_url d ''L'' 7) = Inr resp
                        \<and> 400 \<le> status_code resp \<and> status_code resp < 600) \<longrightarrow>
               ''failed to download and process '' @ str_timestamp d \<in> set (stdout w')))
      \<and> (\<forall>w0 d w1 e.
            output_blob_of d \<notin> set existing_files
            \<and> try_body env d (output_blob_of d)
                 (print (''downloading and processing '' @ output_blob_of d) w0) = (w1, Inl e) \<longrightarrow>
            loop_body env existing_files w0 d
              = print (str_exn e) (print (''failed to download and process '' @ str_timestamp d) w1))"
proof -
  let ?dates = "map (\<lambda>n. n * ns_per_day) [19875..days_from_civil (today env) - 1]"
  let ?w' = "foldl (loop_body env existing_files) w ?dates"
  from assms(2) have t: "t = days_from_civil (today env) * ns_per_day"
    by (rule timestamp_of_date_Inr)
  have range: "date_range (19875 * ns_per_day) (t - ns_per_day) = ?dates"
    unfolding t by (rule date_range_days)
  have run: "download_recent_imerg env w = (?w', Inr ())"
    using assms by (rule download_recent_imerg_Inr)
  from loop_calls [of existing_files ?dates env w] obtain css where
    css: "list_all2 attempt_of (filter (\<lambda>d. output_blob_of d \<notin> set existing_files) ?dates) css"
    "calls ?w' = calls w @ concat css"
    by blast
  have each: "\<forall>d \<in> set (date_range (19875 * ns_per_day) (t - ns_per_day)).
            output_blob_of d \<notin> set existing_files \<longrightarrow>
              Fetch d \<in> set (calls ?w')
            \<and> (''failed to download and process '' @ str_timestamp d \<in> set (stdout ?w')
                 \<or> output_blob_of d \<in> fst ` set (blobs ?w'))
            \<and> ((\<exists>m. http_get env (download_url d ''L'' 7) = Inl m)
                 \<or> (\<exists>resp. http_get env (download_url d ''L'' 7) = Inr resp
                        \<and> 400 \<le> status_code resp \<and> status_code resp < 600) \<longrightarrow>
               ''failed to download and process '' @ str_timestamp d \<in> set (stdout ?w'))"
    unfolding range
  proof (intro ballI impI conjI)
    fix d assume d: "d \<in> set ?dates" and new: "output_blob_of d \<notin> set existing_files"
    then have "d \<in> set (filter (\<lambda>d. output_blob_of d \<notin> set existing_files) ?dates)"
      by simp
    with css(1) have "Fetch d \<in> set (concat css)" by (rule attempt_fetch)
    then show "Fetch d \<in> set (calls ?w')" unfolding css(2) by simp
    from d new show "''failed to download and process '' @ str_timestamp d \<in> set (stdout ?w')
                 \<or> output_blob_of d \<in> fst ` set (blobs ?w')"
      by (rule loop_accounted)
    assume "(\<exists>m. http_get env (download_url d ''L'' 7) = Inl m)
                 \<or> (\<exists>resp. http_get env (download_url d ''L'' 7) = Inr resp
                        \<and> 400 \<le> status_code resp \<and> status_code resp < 600)"
    with d new show "''failed to download and process '' @ str_timestamp d \<in> set (stdout ?w')"
      by (rule loop_fetch_failed)
  qed
  have caught: "\<forall>w0 d w1 e.
            output_blob_of d \<notin> set existing_files
            \<and> try_body env d (output_blob_of d)
                 (print (''downloading and processing '' @ output_blob_of d) w0) = (w1, Inl e) \<longrightarrow>
            loop_body env existing_files w0 d
              = print (str_exn e) (print (''failed to download and process '' @ str_timestamp d) w1)"
    by (simp add: loop_body_def Let_def)
  show ?thesis
    by (rule exI [of _ ?w']) (intro conjI run each caught)
qed

theorem download_recent_imerg_catches_failures_witness:
  "snd (download_recent_imerg (example_env server_second_day example_dataset) empty_world) = Inr ()
   \<and> Fetch example_date
       \<in> set (calls (fst (download_recent_imerg (example_env server_second_day example_dataset) empty_world)))
   \<and> Fetch (example_date + ns_per_day)
       \<in> set (calls (fst (download_recent_imerg (example_env server_second_day example_dataset) empty_world)))
   \<and> ''failed to download and process 2024-06-01 00:00:00''
       \<in> set (stdout (fst (download_recent_imerg (example_env server_second_day example_dataset) empty_world)))"
proof -
  let ?env = "example_env server_second_day example_dataset"
  have t: "timestamp_of_date (today ?env) = Inr (19877 * ns_per_day)"
    unfolding today_example by (rule today_stamp)
  have inside: "example_date \<in> set (date_range (19875 * ns_per_day) (19877 * ns_per_day - ns_per_day))"
    "example_date + ns_per_day \<in> set (date_range (19875 * ns_per_day) (19877 * ns_per_day - ns_per_day))"
    unfolding date_range_days example_days by simp_all
  have new: "\<And>d. output_blob_of d \<notin> set []" by simp
  from download_recent_imerg_catches_failures [OF listing_empty t] obtain w' where
    run: "download_recent_imerg ?env empty_world = (w', Inr ())"
    and each: "\<forall>d \<in> set (date_range (19875 * ns_per_day) (19877 * ns_per_day - ns_per_day)).
            output_blob_of d \<notin> set [] \<longrightarrow>
              Fetch d \<in> set (calls w')
            \<and> (''failed to download and process '' @ str_timestamp d \<in> set (stdout w')
                 \<or> output_blob_of d \<in> fst ` set (blobs w'))
            \<and> ((\<exists>m. http_get ?env (download_url d ''L'' 7) = Inl m)
                 \<or> (\<exists>resp. http_get ?env (download_url d ''L'' 7) = Inr resp
                        \<and> 400 \<le> status_code resp \<and> status_code resp < 600) \<longrightarrow>
               ''failed to download and process '' @ str_timestamp d \<in> set (stdout w'))"
    by blast
  from each inside(1) new have first: "Fetch example_date \<in> set (calls w')"
    "(\<exists>m. http_get ?env (download_url example_date ''L'' 7) = Inl m)
                 \<or> (\<exists>resp. http_get ?env (download_url example_date ''L'' 7) = Inr resp
                        \<and> 400 \<le> status_code resp \<and> status_code resp < 600) \<longrightarrow>
               ''failed to download and process '' @ str_timestamp example_date \<in> set (stdout w')"
    by blast+
  from each inside(2) new have second: "Fetch (example_date + ns_per_day) \<in> set (calls w')"
    by blast
  from first(2) have "''failed to download and process '' @ str_timestamp example_date \<in> set (stdout w')"
    unfolding second_day_404 by simp
  then have line: "''failed to download and process 2024-06-01 00:00:00'' \<in> set (stdout w')"
    unfolding example_failed_line by simp
  from first(1) second line show ?thesis
    unfolding run by simp
qed

section \<open>The time coordinate\<close>

subsection \<open>Printing a date and reading it back\<close>


















subsection \<open>The coordinate through the stages\<close>







section \<open>What the transformer does to the time values\<close>




end
